theory Spec2Isabelle
  imports Complex_Main "HOL-Library.Log_Nat"
begin

section \<open>Go values and runtime primitives used by simnet\<close>

text \<open>
  Byte slices and addresses are strings; a \<^verbatim>\<open>net.Addr\<close> is represented by what its
  \<^verbatim>\<open>String()\<close> method returns. A \<^verbatim>\<open>time.Duration\<close> is a number of nanoseconds held
  in an \<^verbatim>\<open>int64\<close>: additions are wrapped by \<open>int64\<close>.
\<close>

type_synonym bytes = string
type_synonym addr = string
type_synonym duration = int

definition int64 :: "int \<Rightarrow> int" where
  "int64 x = (x + 2 ^ 63) mod 2 ^ 64 - 2 ^ 63"

definition Second :: duration where
  "Second = 1000000000"

text \<open>
  Errors. \<open>Errorf e s\<close> is \<^verbatim>\<open>fmt.Errorf("%w: <text>", e, ...)\<close>: it wraps the sentinel \<open>e\<close>
  and its message is the sentinel's message, a colon, and the formatted text \<open>s\<close>.
  \<open>NetErr\<close> is an error of the real transport, known by its message.
\<close>

datatype error =
    ErrNetworkPartitioned
  | ErrDialFailed
  | ErrClosed
  | EOF
  | NetErr string
  | Errorf error string

fun Error :: "error \<Rightarrow> string" where
  "Error ErrNetworkPartitioned = ''simnet: network partitioned''"
| "Error ErrDialFailed = ''simnet: dial failed''"
| "Error ErrClosed = ''use of closed network connection''"
| "Error EOF = ''EOF''"
| "Error (NetErr s) = s"
| "Error (Errorf e s) = Error e @ '': '' @ s"

fun errors_Is :: "error \<Rightarrow> error \<Rightarrow> bool" where
  "errors_Is (Errorf e s) t = (Errorf e s = t \<or> errors_Is e t)"
| "errors_Is e t = (e = t)"

text \<open>
  An operation of a goroutine either completes, panics, or cannot proceed in the current
  state (a channel operation or a real read that has to wait for another goroutine).
\<close>

datatype panic = CloseOfClosedChannel | SendOnClosedChannel

datatype 'a outcome = Done 'a | Panic panic | Blocked

text \<open>A buffered channel: its queued values, its capacity, and whether it was closed.\<close>

record 'a chan =
  ch_buf :: "'a list"
  ch_cap :: nat
  ch_closed :: bool

definition make_chan :: "nat \<Rightarrow> 'a chan" where
  "make_chan n = \<lparr>ch_buf = [], ch_cap = n, ch_closed = False\<rparr>"

definition close_chan :: "'a chan \<Rightarrow> 'a chan outcome" where
  "close_chan c = (if ch_closed c then Panic CloseOfClosedChannel else Done (c\<lparr>ch_closed := True\<rparr>))"

text \<open>
  Readiness of the cases of a \<^verbatim>\<open>select\<close>: a send can proceed when the buffer has room,
  and also on a closed channel, where proceeding is a panic; a receive can proceed when a
  value is queued or the channel is closed.
\<close>

definition can_send :: "'a chan \<Rightarrow> bool" where
  "can_send c = (ch_closed c \<or> length (ch_buf c) < ch_cap c)"

definition can_recv :: "'a chan \<Rightarrow> bool" where
  "can_recv c = (ch_buf c \<noteq> [] \<or> ch_closed c)"

definition chan_send :: "'a \<Rightarrow> 'a chan \<Rightarrow> 'a chan outcome" where
  "chan_send v c =
     (if ch_closed c then Panic SendOnClosedChannel
      else if length (ch_buf c) < ch_cap c then Done (c\<lparr>ch_buf := ch_buf c @ [v]\<rparr>)
      else Blocked)"

text \<open>
  A \<^verbatim>\<open>select\<close> with two cases, given whether each can proceed: the case that can, either of
  them when both can (the runtime's choice), and waiting when neither can.
\<close>

datatype chosen = Case1 | Case2 | NoCase

definition select2 :: "bool \<Rightarrow> bool \<Rightarrow> bool \<Rightarrow> chosen" where
  "select2 ready1 ready2 pick_first =
     (if ready1 \<and> ready2 then (if pick_first then Case1 else Case2)
      else if ready1 then Case1
      else if ready2 then Case2
      else NoCase)"

text \<open>The builtin \<^verbatim>\<open>copy(dst, src)\<close>: the destination afterwards, and the count copied.\<close>

definition copy_into :: "bytes \<Rightarrow> bytes \<Rightarrow> bytes" where
  "copy_into dst src = take (length dst) src @ drop (length src) dst"

definition copy_count :: "bytes \<Rightarrow> bytes \<Rightarrow> nat" where
  "copy_count dst src = min (length dst) (length src)"

subsection \<open>math/rand\<close>

text \<open>
  The generator of the standard library is represented by its contract: a deterministic
  stream of raw values fixed when the source is created, and a position in it.
  \<open>Float64\<close> yields a value in \<open>[0, 1)\<close>, \<open>Int63n n\<close> a value in \<open>[0, n)\<close> (the library panics
  for \<open>n \<le> 0\<close>; both callers test \<open>Jitter > 0\<close> first), and each call advances the
  position. \<^verbatim>\<open>float64\<close> rates and draws are real numbers.
\<close>

record rng =
  tape :: "nat \<Rightarrow> nat"
  pos :: nat

definition Float64 :: "rng \<Rightarrow> real \<times> rng" where
  "Float64 r = (real (tape r (pos r) mod 2 ^ 53) / 2 ^ 53, r\<lparr>pos := pos r + 1\<rparr>)"

definition Int63n :: "int \<Rightarrow> rng \<Rightarrow> int \<times> rng" where
  "Int63n n r = (int (tape r (pos r)) mod n, r\<lparr>pos := pos r + 1\<rparr>)"

definition NewSource :: "(int \<Rightarrow> nat \<Rightarrow> nat) \<Rightarrow> int \<Rightarrow> rng" where
  "NewSource g seed = \<lparr>tape = g seed, pos = 0\<rparr>"

section \<open>Config (simnet.go)\<close>

text \<open>
  \<open>cfg_rand\<close> is the pointer field \<^verbatim>\<open>rand *rand.Rand\<close>: \<open>None\<close> is nil, \<open>Some p\<close> the address
  of a generator in the store of the \<open>world\<close> below.
\<close>

record Config =
  cfg_rand :: "nat option"
  Latency :: duration
  Jitter :: duration
  Bandwidth :: int
  LossRate :: real
  ReorderRate :: real
  DuplicateRate :: real
  PartitionedAddrs :: "string \<rightharpoonup> bool"
  Seed :: int

text \<open>
  The shared objects of a run: the one \<^verbatim>\<open>*Config\<close> that the dialer and every shim point
  to, the store of \<^verbatim>\<open>*rand.Rand\<close> objects (\<open>nrands\<close> is the next free address), the library's
  map from a seed to its stream, the total time spent in \<^verbatim>\<open>time.Sleep\<close>, the connection
  attempts made on the real network, and how the runtime resolves a \<^verbatim>\<open>select\<close> in which
  both cases are ready (\<open>True\<close>: the case written first).
\<close>

record world =
  cfg :: Config
  rands :: "nat \<Rightarrow> rng"
  nrands :: nat
  gen :: "int \<Rightarrow> nat \<Rightarrow> nat"
  slept :: duration
  dials :: "(string \<times> string) list"
  sel_first :: bool

text \<open>
  The functional options and \<open>NewConfig\<close>. The mutex \<^verbatim>\<open>mu\<close> has no counterpart: every call
  and every turn of a goroutine is one atomic step of the world.
\<close>

type_synonym Option = "Config \<Rightarrow> Config"

definition WithLatency :: "duration \<Rightarrow> Option" where
  "WithLatency latency = (\<lambda>c. c\<lparr>Latency := latency\<rparr>)"

definition WithJitter :: "duration \<Rightarrow> Option" where
  "WithJitter jitter = (\<lambda>c. c\<lparr>Jitter := jitter\<rparr>)"

definition WithBandwidth :: "int \<Rightarrow> Option" where
  "WithBandwidth bandwidth = (\<lambda>c. c\<lparr>Bandwidth := bandwidth\<rparr>)"

definition WithLossRate :: "real \<Rightarrow> Option" where
  "WithLossRate lossRate = (\<lambda>c. c\<lparr>LossRate := lossRate\<rparr>)"

definition WithReorderRate :: "real \<Rightarrow> Option" where
  "WithReorderRate reorderRate = (\<lambda>c. c\<lparr>ReorderRate := reorderRate\<rparr>)"

definition WithDuplicateRate :: "real \<Rightarrow> Option" where
  "WithDuplicateRate duplicateRate = (\<lambda>c. c\<lparr>DuplicateRate := duplicateRate\<rparr>)"

definition WithPartitionedAddrs :: "(string \<rightharpoonup> bool) \<Rightarrow> Option" where
  "WithPartitionedAddrs partitionedAddrs =
     (\<lambda>c. c\<lparr>PartitionedAddrs := PartitionedAddrs c ++ partitionedAddrs\<rparr>)"

definition WithSeed :: "int \<Rightarrow> Option" where
  "WithSeed seed = (\<lambda>c. c\<lparr>Seed := seed\<rparr>)"

definition apply_opts :: "Option list \<Rightarrow> Config \<Rightarrow> Config" where
  "apply_opts opts c = foldl (\<lambda>c1 opt. opt c1) c opts"

definition NewConfig :: "Option list \<Rightarrow> Config" where
  "NewConfig opts =
     apply_opts opts
       \<lparr>cfg_rand = None, Latency = 0, Jitter = 0, Bandwidth = 0, LossRate = 0,
        ReorderRate = 0, DuplicateRate = 0, PartitionedAddrs = Map.empty, Seed = 0\<rparr>"

text \<open>\<open>now\<close> is what \<^verbatim>\<open>time.Now().UnixNano()\<close> returns when it is called.\<close>

definition randSource :: "int \<Rightarrow> world \<Rightarrow> nat \<times> world" where
  "randSource now w =
     (case cfg_rand (cfg w) of
        None \<Rightarrow>
          (let r = (if Seed (cfg w) \<noteq> 0 then NewSource (gen w) (Seed (cfg w))
                    else NewSource (gen w) now);
               p = nrands w
           in (p, w\<lparr>rands := (rands w)(p := r), nrands := p + 1,
                     cfg := (cfg w)\<lparr>cfg_rand := Some p\<rparr>\<rparr>))
      | Some p \<Rightarrow> (p, w))"

definition AddPartition :: "string \<Rightarrow> world \<Rightarrow> world" where
  "AddPartition address w =
     w\<lparr>cfg := (cfg w)\<lparr>PartitionedAddrs := (PartitionedAddrs (cfg w))(address \<mapsto> True)\<rparr>\<rparr>"

definition RemovePartition :: "string \<Rightarrow> world \<Rightarrow> world" where
  "RemovePartition address w =
     w\<lparr>cfg := (cfg w)\<lparr>PartitionedAddrs := (PartitionedAddrs (cfg w))(address := None)\<rparr>\<rparr>"

definition isPartitioned :: "string \<Rightarrow> world \<Rightarrow> bool" where
  "isPartitioned address w =
     (case PartitionedAddrs (cfg w) address of None \<Rightarrow> False | Some _ \<Rightarrow> True)"

text \<open>Calls on a \<^verbatim>\<open>*rand.Rand\<close> through its address.\<close>

definition rand_Float64 :: "nat \<Rightarrow> world \<Rightarrow> real \<times> world" where
  "rand_Float64 p w = (case Float64 (rands w p) of (x, r) \<Rightarrow> (x, w\<lparr>rands := (rands w)(p := r)\<rparr>))"

definition rand_Int63n :: "int \<Rightarrow> nat \<Rightarrow> world \<Rightarrow> int \<times> world" where
  "rand_Int63n n p w = (case Int63n n (rands w p) of (x, r) \<Rightarrow> (x, w\<lparr>rands := (rands w)(p := r)\<rparr>))"

definition Sleep :: "duration \<Rightarrow> world \<Rightarrow> world" where
  "Sleep d w = (if d > 0 then w\<lparr>slept := slept w + d\<rparr> else w)"

text \<open>
  The draw \<^verbatim>\<open>rate > 0 && r.Float64() < rate\<close> and the latency computation are written
  identically in both shims; each shim's method applies them to its own \<open>rand\<close> field.
\<close>

subsection \<open>float64 arithmetic of the transfer time\<close>

text \<open>
  The transfer time is \<^verbatim>\<open>time.Duration(float64(n) / float64(Bandwidth) * float64(time.Second))\<close>.
  A \<^verbatim>\<open>float64\<close> holds 53 significant bits, and every conversion, the division and the
  multiplication round their exact result to the nearest such value, ties to the even one.
  \<open>exponent x\<close> is the power of two at or below a positive \<open>x\<close>, and \<open>float64 x\<close> is \<open>x\<close>
  rounded. The range of the exponent is not represented: the values here lie between
  \<open>2\<^sup>-\<^sup>6\<^sup>3\<close> and \<open>2\<^sup>9\<^sup>3\<close>, far from overflow and from subnormal numbers.
\<close>

definition exponent :: "real \<Rightarrow> int" where
  "exponent x =
     (if x \<ge> 1 then bitlen \<lfloor>x\<rfloor> - 1
      else (let b = bitlen \<lfloor>1 / x\<rfloor> in if x * 2 ^ nat (b - 1) = 1 then 1 - b else - b))"

definition round_even :: "real \<Rightarrow> int" where
  "round_even y =
     (let f = \<lfloor>y\<rfloor> in
      if y - of_int f < 1 / 2 then f
      else if y - of_int f > 1 / 2 then f + 1
      else if even f then f else f + 1)"

definition float64 :: "real \<Rightarrow> real" where
  "float64 x =
     (if x = 0 then 0
      else (let e = exponent \<bar>x\<bar> - 52 in of_int (round_even (x / 2 powi e)) * 2 powi e))"

text \<open>
  The conversion of a \<^verbatim>\<open>float64\<close> to \<^verbatim>\<open>int64\<close> drops the fraction. For a value outside the
  range of \<^verbatim>\<open>int64\<close> the language leaves the result to the implementation; the value taken
  here is the smallest \<^verbatim>\<open>int64\<close>, which is what the amd64 conversion gives.
\<close>

definition int64_of_float :: "real \<Rightarrow> int" where
  "int64_of_float x =
     (let t = (if x \<ge> 0 then \<lfloor>x\<rfloor> else \<lceil>x\<rceil>)
      in if - (2 ^ 63) \<le> t \<and> t < 2 ^ 63 then t else - (2 ^ 63))"

definition transferTime :: "nat \<Rightarrow> int \<Rightarrow> duration" where
  "transferTime n bw =
     int64_of_float
       (float64 (float64 (float64 (real n) / float64 (real_of_int bw))
                 * float64 (real_of_int Second)))"

section \<open>The wrapped stream connection\<close>

text \<open>
  The real \<^verbatim>\<open>net.Conn\<close> is an external collaborator. It is represented by what it will
  hand to successive \<^verbatim>\<open>Read\<close> calls (chunks of bytes, each with the error reported along
  with it; an empty script means the call has to wait), by the data of the \<^verbatim>\<open>Write\<close> calls
  it has accepted, in order, and by whether it was closed.
\<close>

record netConn =
  nc_rx :: "(bytes \<times> error option) list"
  nc_tx :: "bytes list"
  nc_closed :: bool

definition conn_Read :: "nat \<Rightarrow> netConn \<Rightarrow> ((bytes \<times> error option) \<times> netConn) outcome" where
  "conn_Read k c =
     (if nc_closed c then Done (([], Some ErrClosed), c)
      else (case nc_rx c of
              [] \<Rightarrow> Blocked
            | (d, e) # rest \<Rightarrow>
                if length d \<le> k then Done ((d, e), c\<lparr>nc_rx := rest\<rparr>)
                else Done ((take k d, None), c\<lparr>nc_rx := (drop k d, e) # rest\<rparr>)))"

definition conn_Write :: "bytes \<Rightarrow> netConn \<Rightarrow> (nat \<times> error option) \<times> netConn" where
  "conn_Write data c =
     (if nc_closed c then ((0, Some ErrClosed), c)
      else ((length data, None), c\<lparr>nc_tx := nc_tx c @ [data]\<rparr>))"

definition conn_Close :: "netConn \<Rightarrow> error option \<times> netConn" where
  "conn_Close c = (if nc_closed c then (Some ErrClosed, c) else (None, c\<lparr>nc_closed := True\<rparr>))"

section \<open>simulatedConn: the stream shim\<close>

text \<open>
  The fields of the struct, with \<open>sc_rand\<close> the address of the generator. \<open>sc_closeOnce\<close>
  is whether the \<^verbatim>\<open>sync.Once\<close> has run. \<open>sc_delayed\<close> holds the payloads of the goroutines
  that \<open>Write\<close> has started in its reordering branch and that have not run yet.
\<close>

record simulatedConn =
  sc_conn :: netConn
  sc_rand :: nat
  sc_readBuf :: bytes
  sc_writeQueue :: "bytes chan"
  sc_closeOnce :: bool
  sc_closed :: "unit chan"
  sc_delayed :: "bytes list"

definition wrapConn :: "int \<Rightarrow> netConn \<Rightarrow> world \<Rightarrow> simulatedConn \<times> world" where
  "wrapConn now conn w =
     (case randSource now w of (p, w1) \<Rightarrow>
        (\<lparr>sc_conn = conn, sc_rand = p, sc_readBuf = [], sc_writeQueue = make_chan 100,
          sc_closeOnce = False, sc_closed = make_chan 0, sc_delayed = []\<rparr>, w1))"

definition sc_simulateLoss :: "simulatedConn \<Rightarrow> world \<Rightarrow> bool \<times> world" where
  "sc_simulateLoss sc w =
     (if LossRate (cfg w) > 0
      then (case rand_Float64 (sc_rand sc) w of (x, w1) \<Rightarrow> (x < LossRate (cfg w1), w1))
      else (False, w))"

definition sc_simulateReordering :: "simulatedConn \<Rightarrow> world \<Rightarrow> bool \<times> world" where
  "sc_simulateReordering sc w =
     (if ReorderRate (cfg w) > 0
      then (case rand_Float64 (sc_rand sc) w of (x, w1) \<Rightarrow> (x < ReorderRate (cfg w1), w1))
      else (False, w))"

definition sc_simulateDuplication :: "simulatedConn \<Rightarrow> world \<Rightarrow> bool \<times> world" where
  "sc_simulateDuplication sc w =
     (if DuplicateRate (cfg w) > 0
      then (case rand_Float64 (sc_rand sc) w of (x, w1) \<Rightarrow> (x < DuplicateRate (cfg w1), w1))
      else (False, w))"

definition calculateLatency :: "nat \<Rightarrow> simulatedConn \<Rightarrow> world \<Rightarrow> duration \<times> world" where
  "calculateLatency n sc w =
     (let latency0 = Latency (cfg w) in
      case (if Jitter (cfg w) > 0
            then (case rand_Int63n (Jitter (cfg w)) (sc_rand sc) w of
                    (jitter, w1) \<Rightarrow> (int64 (latency0 + jitter), w1))
            else (latency0, w)) of
        (latency1, w1) \<Rightarrow>
          (if Bandwidth (cfg w1) > 0 \<and> n > 0
           then (int64 (latency1 + transferTime n (Bandwidth (cfg w1))), w1)
           else (latency1, w1)))"

definition sc_simulateLatency :: "nat \<Rightarrow> simulatedConn \<Rightarrow> world \<Rightarrow> world" where
  "sc_simulateLatency n sc w =
     (case calculateLatency n sc w of (delay, w1) \<Rightarrow> if delay > 0 then Sleep delay w1 else w1)"

definition enqueueWrite :: "bytes \<Rightarrow> simulatedConn \<Rightarrow> world \<Rightarrow> simulatedConn outcome" where
  "enqueueWrite data sc w =
     (case select2 (can_send (sc_writeQueue sc)) (can_recv (sc_closed sc)) (sel_first w) of
        Case1 \<Rightarrow>
          (case chan_send data (sc_writeQueue sc) of
             Done q \<Rightarrow> Done (sc\<lparr>sc_writeQueue := q\<rparr>)
           | Panic p \<Rightarrow> Panic p
           | Blocked \<Rightarrow> Blocked)
      | Case2 \<Rightarrow> Done sc
      | NoCase \<Rightarrow> Blocked)"

text \<open>
  \<open>Read\<close> takes the caller's buffer \<open>b\<close> as it is before the call and returns the count, the
  error and the buffer as it is after the call.
\<close>

definition Read ::
  "bytes \<Rightarrow> simulatedConn \<times> world \<Rightarrow> ((nat \<times> error option \<times> bytes) \<times> simulatedConn \<times> world) outcome"
where
  "Read b s =
     (case s of (sc, w) \<Rightarrow>
      case sc_simulateLoss sc w of (lost, w1) \<Rightarrow>
      if lost then Done ((0, Some EOF, b), sc, w1)
      else
        (case conn_Read (length b) (sc_conn sc) of
           Blocked \<Rightarrow> Blocked
         | Panic p \<Rightarrow> Panic p
         | Done ((data, err), c) \<Rightarrow>
             (let n = length data; sc1 = sc\<lparr>sc_conn := c\<rparr> in
              if n > 0 then
                (case sc_simulateDuplication sc1 w1 of (dup, w2) \<Rightarrow>
                 let sc2 = (if dup then sc1\<lparr>sc_readBuf := sc_readBuf sc1 @ data\<rparr> else sc1) in
                 case sc_simulateReordering sc2 w2 of (reo, w3) \<Rightarrow>
                 if reo \<and> length (sc_readBuf sc2) > 0 then
                   (let temp = data;
                        b1 = copy_into b (sc_readBuf sc2);
                        sc3 = sc2\<lparr>sc_readBuf := temp\<rparr>;
                        w4 = sc_simulateLatency n sc3 w3
                    in Done ((length b, None, b1), sc3, w4))
                 else
                   (let w4 = sc_simulateLatency n sc2 w3;
                        b1 = copy_into b data
                    in Done ((n, err, b1), sc2, w4)))
              else Done ((n, err, b), sc1, w1))))"

definition Write ::
  "bytes \<Rightarrow> simulatedConn \<times> world \<Rightarrow> ((nat \<times> error option) \<times> simulatedConn \<times> world) outcome"
where
  "Write b s =
     (case s of (sc, w) \<Rightarrow>
      case sc_simulateLoss sc w of (lost, w1) \<Rightarrow>
      if lost then Done ((length b, None), sc, w1)
      else
        (case sc_simulateDuplication sc w1 of (dup, w2) \<Rightarrow>
         (case (if dup then enqueueWrite b sc w2 else Done sc) of
            Blocked \<Rightarrow> Blocked
          | Panic p \<Rightarrow> Panic p
          | Done sc1 \<Rightarrow>
              (case sc_simulateReordering sc1 w2 of (reo, w3) \<Rightarrow>
               if reo then Done ((length b, None), sc1\<lparr>sc_delayed := sc_delayed sc1 @ [b]\<rparr>, w3)
               else
                 (let w4 = sc_simulateLatency (length b) sc1 w3 in
                  (case enqueueWrite b sc1 w4 of
                     Blocked \<Rightarrow> Blocked
                   | Panic p \<Rightarrow> Panic p
                   | Done sc2 \<Rightarrow> Done ((length b, None), sc2, w4)))))))"

text \<open>
  The goroutine started by the reordering branch of \<open>Write\<close>, for the \<open>i\<close>-th payload still
  waiting: it sleeps for the computed latency and then enqueues the payload.
\<close>

definition Write_goroutine :: "nat \<Rightarrow> simulatedConn \<times> world \<Rightarrow> (simulatedConn \<times> world) outcome" where
  "Write_goroutine i s =
     (case s of (sc, w) \<Rightarrow>
      if i < length (sc_delayed sc) then
        (let dataCopy = sc_delayed sc ! i;
             sc1 = sc\<lparr>sc_delayed := take i (sc_delayed sc) @ drop (Suc i) (sc_delayed sc)\<rparr>;
             w1 = sc_simulateLatency (length dataCopy) sc1 w
         in case enqueueWrite dataCopy sc1 w1 of
              Blocked \<Rightarrow> Blocked
            | Panic p \<Rightarrow> Panic p
            | Done sc2 \<Rightarrow> Done (sc2, w1))
      else Done (sc, w))"

definition Close :: "simulatedConn \<Rightarrow> (error option \<times> simulatedConn) outcome" where
  "Close sc =
     (case (if sc_closeOnce sc then Done sc
            else (case close_chan (sc_closed sc) of
                    Blocked \<Rightarrow> Blocked
                  | Panic p \<Rightarrow> Panic p
                  | Done c1 \<Rightarrow>
                      (case close_chan (sc_writeQueue sc) of
                         Blocked \<Rightarrow> Blocked
                       | Panic p \<Rightarrow> Panic p
                       | Done q1 \<Rightarrow>
                           Done (sc\<lparr>sc_closed := c1, sc_writeQueue := q1, sc_closeOnce := True\<rparr>)))) of
        Blocked \<Rightarrow> Blocked
      | Panic p \<Rightarrow> Panic p
      | Done sc1 \<Rightarrow>
          (case conn_Close (sc_conn sc1) of (err, c) \<Rightarrow> Done (err, sc1\<lparr>sc_conn := c\<rparr>)))"

text \<open>
  One iteration of the loop of \<open>processWriteQueue\<close>; the flag says whether the loop goes on.
  \<open>processWriteQueue\<close> runs the loop until the goroutine returns or has to wait, and gives
  the shim as it is then.
\<close>

definition processWriteQueue_iter :: "simulatedConn \<Rightarrow> world \<Rightarrow> (bool \<times> simulatedConn) outcome" where
  "processWriteQueue_iter sc w =
     (case select2 (can_recv (sc_writeQueue sc)) (can_recv (sc_closed sc)) (sel_first w) of
        Case1 \<Rightarrow>
          (case ch_buf (sc_writeQueue sc) of
             [] \<Rightarrow> Done (False, sc)
           | data # rest \<Rightarrow>
               (case conn_Write data (sc_conn sc) of
                  (r, c) \<Rightarrow>
                    Done (True, sc\<lparr>sc_writeQueue := (sc_writeQueue sc)\<lparr>ch_buf := rest\<rparr>,
                                   sc_conn := c\<rparr>)))
      | Case2 \<Rightarrow> Done (False, sc)
      | NoCase \<Rightarrow> Blocked)"

function processWriteQueue :: "simulatedConn \<Rightarrow> world \<Rightarrow> simulatedConn" where
  "processWriteQueue sc w =
     (case processWriteQueue_iter sc w of
        Done (True, sc1) \<Rightarrow> processWriteQueue sc1 w
      | Done (False, sc1) \<Rightarrow> sc1
      | Panic p \<Rightarrow> sc
      | Blocked \<Rightarrow> sc)"
  by pat_completeness auto
termination
  by (relation "measure (\<lambda>(sc, w). length (ch_buf (sc_writeQueue sc)))")
     (auto simp: processWriteQueue_iter_def split: chosen.splits list.splits prod.splits)

declare processWriteQueue.simps [simp del]


section \<open>Dialer\<close>

text \<open>
  The field \<open>dialer\<close> is the real \<^verbatim>\<open>net.Dialer\<close>: what a connection attempt to a network and
  address gives. Every call of it is recorded in \<open>dials\<close>. The field \<^verbatim>\<open>config\<close> points to
  the \<open>cfg\<close> of the world.
\<close>

record Dialer =
  dialer :: "string \<Rightarrow> string \<Rightarrow> error + netConn"

definition DialContext ::
  "int \<Rightarrow> Dialer \<Rightarrow> string \<Rightarrow> string \<Rightarrow> world \<Rightarrow> (error + simulatedConn) \<times> world"
where
  "DialContext now d network address w =
     (if isPartitioned address w
      then (Inl (Errorf ErrNetworkPartitioned (''unable to reach address: '' @ address)), w)
      else
        (let w1 = w\<lparr>dials := dials w @ [(network, address)]\<rparr> in
         case dialer d network address of
           Inl err \<Rightarrow> (Inl (Errorf ErrDialFailed (Error err)), w1)
         | Inr conn \<Rightarrow> (case wrapConn now conn w1 of (sc, w2) \<Rightarrow> (Inr sc, w2))))"

section \<open>simulatedPacketConn: the datagram shim\<close>

record packet =
  pkt_data :: bytes
  pkt_addr :: addr

text \<open>
  The real \<^verbatim>\<open>net.PacketConn\<close>: the datagrams waiting at the socket with their source
  addresses, the packets transmitted on it, in order, and whether it was closed.
\<close>

record packetConn =
  pc_laddr :: "addr option"
  pc_rx :: "(bytes \<times> addr) list"
  pc_tx :: "packet list"
  pc_closed :: bool

definition pc_ReadFrom :: "nat \<Rightarrow> packetConn \<Rightarrow> ((error + packet) \<times> packetConn) outcome" where
  "pc_ReadFrom k c =
     (if pc_closed c then Done (Inl ErrClosed, c)
      else (case pc_rx c of
              [] \<Rightarrow> Blocked
            | (d, a) # rest \<Rightarrow> Done (Inr \<lparr>pkt_data = take k d, pkt_addr = a\<rparr>, c\<lparr>pc_rx := rest\<rparr>)))"

definition pc_WriteTo :: "bytes \<Rightarrow> addr \<Rightarrow> packetConn \<Rightarrow> (nat \<times> error option) \<times> packetConn" where
  "pc_WriteTo d a c =
     (if pc_closed c then ((0, Some ErrClosed), c)
      else ((length d, None), c\<lparr>pc_tx := pc_tx c @ [\<lparr>pkt_data = d, pkt_addr = a\<rparr>]\<rparr>))"

definition pc_Close :: "packetConn \<Rightarrow> error option \<times> packetConn" where
  "pc_Close c = (if pc_closed c then (Some ErrClosed, c) else (None, c\<lparr>pc_closed := True\<rparr>))"

text \<open>
  The fields of the struct. \<open>spc_delayed\<close> holds the packets of the goroutines that
  \<open>enqueuePacket\<close> has started in its reordering branch and that have not run yet.
\<close>

record simulatedPacketConn =
  spc_conn :: packetConn
  spc_localAddr :: "addr option"
  spc_remoteAddr :: "addr option"
  spc_closed :: "unit chan"
  spc_readQueue :: "packet chan"
  spc_writeQueue :: "packet chan"
  spc_rand :: nat
  spc_delayed :: "packet list"

definition newSimulatedPacketConn :: "packetConn \<Rightarrow> nat \<Rightarrow> simulatedPacketConn" where
  "newSimulatedPacketConn conn p =
     \<lparr>spc_conn = conn, spc_localAddr = None, spc_remoteAddr = None, spc_closed = make_chan 0,
      spc_readQueue = make_chan 100, spc_writeQueue = make_chan 100, spc_rand = p,
      spc_delayed = []\<rparr>"

definition spc_simulateLatency :: "nat \<Rightarrow> simulatedPacketConn \<Rightarrow> world \<Rightarrow> duration \<times> world" where
  "spc_simulateLatency n spc w =
     (let latency0 = Latency (cfg w) in
      case (if Jitter (cfg w) > 0
            then (case rand_Int63n (Jitter (cfg w)) (spc_rand spc) w of
                    (jitter, w1) \<Rightarrow> (int64 (latency0 + jitter), w1))
            else (latency0, w)) of
        (latency1, w1) \<Rightarrow>
          (if Bandwidth (cfg w1) > 0 \<and> n > 0
           then (int64 (latency1 + transferTime n (Bandwidth (cfg w1))), w1)
           else (latency1, w1)))"

definition spc_simulateLoss :: "simulatedPacketConn \<Rightarrow> world \<Rightarrow> bool \<times> world" where
  "spc_simulateLoss spc w =
     (if LossRate (cfg w) > 0
      then (case rand_Float64 (spc_rand spc) w of (x, w1) \<Rightarrow> (x < LossRate (cfg w1), w1))
      else (False, w))"

definition spc_simulateReordering :: "simulatedPacketConn \<Rightarrow> world \<Rightarrow> bool \<times> world" where
  "spc_simulateReordering spc w =
     (if ReorderRate (cfg w) > 0
      then (case rand_Float64 (spc_rand spc) w of (x, w1) \<Rightarrow> (x < ReorderRate (cfg w1), w1))
      else (False, w))"

definition spc_simulateDuplication :: "simulatedPacketConn \<Rightarrow> world \<Rightarrow> bool \<times> world" where
  "spc_simulateDuplication spc w =
     (if DuplicateRate (cfg w) > 0
      then (case rand_Float64 (spc_rand spc) w of (x, w1) \<Rightarrow> (x < DuplicateRate (cfg w1), w1))
      else (False, w))"

definition deliverPacket ::
  "packet \<Rightarrow> simulatedPacketConn \<times> world \<Rightarrow> (simulatedPacketConn \<times> world) outcome"
where
  "deliverPacket pkt s =
     (case s of (spc, w) \<Rightarrow>
      case spc_simulateLatency (length (pkt_data pkt)) spc w of (d, w1) \<Rightarrow>
      let w2 = Sleep d w1 in
      (case select2 (can_send (spc_readQueue spc)) (can_recv (spc_closed spc)) (sel_first w2) of
         Case1 \<Rightarrow>
           (case chan_send pkt (spc_readQueue spc) of
              Done q \<Rightarrow> Done (spc\<lparr>spc_readQueue := q\<rparr>, w2)
            | Panic p \<Rightarrow> Panic p
            | Blocked \<Rightarrow> Blocked)
       | Case2 \<Rightarrow> Done (spc, w2)
       | NoCase \<Rightarrow> Blocked))"

definition enqueuePacket ::
  "packet \<Rightarrow> simulatedPacketConn \<times> world \<Rightarrow> (simulatedPacketConn \<times> world) outcome"
where
  "enqueuePacket pkt s =
     (case s of (spc, w) \<Rightarrow>
      case spc_simulateLoss spc w of (lost, w1) \<Rightarrow>
      if lost then Done (spc, w1)
      else
        (case spc_simulateDuplication spc w1 of (dup, w2) \<Rightarrow>
         (case (if dup then deliverPacket pkt (spc, w2) else Done (spc, w2)) of
            Blocked \<Rightarrow> Blocked
          | Panic p \<Rightarrow> Panic p
          | Done (spc1, w3) \<Rightarrow>
              (case spc_simulateReordering spc1 w3 of (reo, w4) \<Rightarrow>
               if reo then Done (spc1\<lparr>spc_delayed := spc_delayed spc1 @ [pkt]\<rparr>, w4)
               else deliverPacket pkt (spc1, w4)))))"

text \<open>
  The goroutine started by the reordering branch of \<open>enqueuePacket\<close>, for the \<open>i\<close>-th packet
  still waiting: it sleeps for a computed latency and calls \<open>deliverPacket\<close>.
\<close>

definition enqueuePacket_goroutine ::
  "nat \<Rightarrow> simulatedPacketConn \<times> world \<Rightarrow> (simulatedPacketConn \<times> world) outcome"
where
  "enqueuePacket_goroutine i s =
     (case s of (spc, w) \<Rightarrow>
      if i < length (spc_delayed spc) then
        (let pkt = spc_delayed spc ! i;
             spc1 = spc\<lparr>spc_delayed := take i (spc_delayed spc) @ drop (Suc i) (spc_delayed spc)\<rparr>
         in case spc_simulateLatency (length (pkt_data pkt)) spc1 w of
              (d, w1) \<Rightarrow> deliverPacket pkt (spc1, Sleep d w1))
      else Done (spc, w))"

definition processIncomingPacket ::
  "packet \<Rightarrow> simulatedPacketConn \<times> world \<Rightarrow> (simulatedPacketConn \<times> world) outcome"
where
  "processIncomingPacket pkt s = enqueuePacket pkt s"

definition processOutgoingPacket :: "packet \<Rightarrow> simulatedPacketConn \<Rightarrow> simulatedPacketConn" where
  "processOutgoingPacket pkt spc =
     (case pc_WriteTo (pkt_data pkt) (pkt_addr pkt) (spc_conn spc) of
        (r, c) \<Rightarrow> spc\<lparr>spc_conn := c\<rparr>)"

text \<open>
  \<open>ReadFrom\<close> takes the caller's buffer \<open>p\<close> and returns the count, the address, the error
  and the buffer afterwards. \<open>readQueue\<close> is never closed; a receive from it, were it closed
  and empty, would give the zero packet.
\<close>

definition ReadFrom ::
  "bytes \<Rightarrow> simulatedPacketConn \<Rightarrow> world
     \<Rightarrow> ((nat \<times> addr option \<times> error option \<times> bytes) \<times> simulatedPacketConn) outcome"
where
  "ReadFrom p spc w =
     (case select2 (can_recv (spc_readQueue spc)) (can_recv (spc_closed spc)) (sel_first w) of
        Case1 \<Rightarrow>
          (case ch_buf (spc_readQueue spc) of
             [] \<Rightarrow> Done ((0, None, None, p), spc)
           | pkt # rest \<Rightarrow>
               Done ((copy_count p (pkt_data pkt), Some (pkt_addr pkt), None,
                      copy_into p (pkt_data pkt)),
                     spc\<lparr>spc_readQueue := (spc_readQueue spc)\<lparr>ch_buf := rest\<rparr>\<rparr>))
      | Case2 \<Rightarrow> Done ((0, None, Some ErrClosed, p), spc)
      | NoCase \<Rightarrow> Blocked)"

definition WriteTo ::
  "bytes \<Rightarrow> addr \<Rightarrow> simulatedPacketConn \<times> world
     \<Rightarrow> ((nat \<times> error option) \<times> simulatedPacketConn \<times> world) outcome"
where
  "WriteTo p a s =
     (case s of (spc, w) \<Rightarrow>
      if isPartitioned a w
      then Done ((0, Some (Errorf ErrNetworkPartitioned (''unable to reach address: '' @ a))),
                 spc, w)
      else (case enqueuePacket \<lparr>pkt_data = p, pkt_addr = a\<rparr> (spc, w) of
              Blocked \<Rightarrow> Blocked
            | Panic e \<Rightarrow> Panic e
            | Done (spc1, w1) \<Rightarrow> Done ((length p, None), spc1, w1)))"

definition spc_Close :: "simulatedPacketConn \<Rightarrow> (error option \<times> simulatedPacketConn) outcome" where
  "spc_Close spc =
     (case close_chan (spc_closed spc) of
        Blocked \<Rightarrow> Blocked
      | Panic p \<Rightarrow> Panic p
      | Done c1 \<Rightarrow>
          (case pc_Close (spc_conn spc) of
             (err, c) \<Rightarrow> Done (err, spc\<lparr>spc_closed := c1, spc_conn := c\<rparr>)))"

text \<open>
  One iteration of \<open>readLoop\<close> and of \<open>writeLoop\<close>; the flag says whether the loop goes on.
  \<open>writeQueue\<close> is never closed; a receive from it, were it closed and empty, would give
  the zero packet.
\<close>

definition readLoop_iter ::
  "simulatedPacketConn \<times> world \<Rightarrow> (bool \<times> simulatedPacketConn \<times> world) outcome"
where
  "readLoop_iter s =
     (case s of (spc, w) \<Rightarrow>
      if can_recv (spc_closed spc) then Done (False, spc, w)
      else (case pc_ReadFrom 65535 (spc_conn spc) of
              Blocked \<Rightarrow> Blocked
            | Panic p \<Rightarrow> Panic p
            | Done (Inl err, c) \<Rightarrow> Done (True, spc\<lparr>spc_conn := c\<rparr>, w)
            | Done (Inr pkt, c) \<Rightarrow>
                (case processIncomingPacket pkt (spc\<lparr>spc_conn := c\<rparr>, w) of
                   Blocked \<Rightarrow> Blocked
                 | Panic p \<Rightarrow> Panic p
                 | Done (spc1, w1) \<Rightarrow> Done (True, spc1, w1))))"

definition writeLoop_iter :: "simulatedPacketConn \<Rightarrow> world \<Rightarrow> (bool \<times> simulatedPacketConn) outcome" where
  "writeLoop_iter spc w =
     (case select2 (can_recv (spc_closed spc)) (can_recv (spc_writeQueue spc)) (sel_first w) of
        Case1 \<Rightarrow> Done (False, spc)
      | Case2 \<Rightarrow>
          (case ch_buf (spc_writeQueue spc) of
             [] \<Rightarrow> Done (True, processOutgoingPacket \<lparr>pkt_data = [], pkt_addr = []\<rparr> spc)
           | pkt # rest \<Rightarrow>
               Done (True, processOutgoingPacket pkt
                             (spc\<lparr>spc_writeQueue := (spc_writeQueue spc)\<lparr>ch_buf := rest\<rparr>\<rparr>)))
      | NoCase \<Rightarrow> Blocked)"

text \<open>
  \<open>UDPConn\<close>. \<open>listen\<close> is \<^verbatim>\<open>net.ListenUDP("udp", laddr)\<close>; \<open>cfg_nil\<close> says that the argument
  \<^verbatim>\<open>cfg\<close> is nil, in which case a fresh default profile is made, and otherwise the argument
  is the \<open>cfg\<close> of the world.
\<close>

definition UDPConn ::
  "(addr option \<Rightarrow> error + packetConn) \<Rightarrow> int \<Rightarrow> bool \<Rightarrow> addr option \<Rightarrow> addr option \<Rightarrow> world
     \<Rightarrow> (error + simulatedPacketConn) \<times> world"
where
  "UDPConn listen now cfg_nil laddr raddr w =
     (let w0 = (if cfg_nil then w\<lparr>cfg := NewConfig []\<rparr> else w) in
      case listen laddr of
        Inl err \<Rightarrow> (Inl err, w0)
      | Inr conn \<Rightarrow>
          (case randSource now w0 of
             (p, w1) \<Rightarrow> (Inr (newSimulatedPacketConn conn p), w1)))"


section \<open>Callers and schedules\<close>

text \<open>
  A caller that writes the payloads \<open>bs\<close> one after the other and collects what \<open>Write\<close>
  returns.
\<close>

fun Write_all ::
  "bytes list \<Rightarrow> simulatedConn \<times> world
     \<Rightarrow> ((nat \<times> error option) list \<times> simulatedConn \<times> world) outcome"
where
  "Write_all [] s = Done ([], s)"
| "Write_all (b # bs) s =
     (case Write b s of
        Blocked \<Rightarrow> Blocked
      | Panic p \<Rightarrow> Panic p
      | Done (r, s1) \<Rightarrow>
          (case Write_all bs s1 of
             Blocked \<Rightarrow> Blocked
           | Panic p \<Rightarrow> Panic p
           | Done (rs, s2) \<Rightarrow> Done (r # rs, s2)))"

text \<open>
  A schedule of a stream shim: the calls made on it and the turns given to its goroutines
  (the writer \<open>processWriteQueue\<close>, and the delayed goroutines of \<open>Write\<close>), in the order in
  which they happen. \<open>sc_run\<close> gives what the calls returned and the state reached.
\<close>

datatype sc_call = CallWrite bytes | CallRead bytes | CallClose | RunWriter | RunDelayed nat

datatype sc_result =
    WriteRes nat "error option"
  | ReadRes nat "error option" bytes
  | CloseRes "error option"
  | NoRes

fun sc_step ::
  "sc_call \<Rightarrow> simulatedConn \<times> world \<Rightarrow> (sc_result \<times> simulatedConn \<times> world) outcome"
where
  "sc_step (CallWrite b) s =
     (case Write b s of
        Blocked \<Rightarrow> Blocked
      | Panic p \<Rightarrow> Panic p
      | Done ((n, e), s1) \<Rightarrow> Done (WriteRes n e, s1))"
| "sc_step (CallRead b) s =
     (case Read b s of
        Blocked \<Rightarrow> Blocked
      | Panic p \<Rightarrow> Panic p
      | Done ((n, e, b1), s1) \<Rightarrow> Done (ReadRes n e b1, s1))"
| "sc_step CallClose s =
     (case Close (fst s) of
        Blocked \<Rightarrow> Blocked
      | Panic p \<Rightarrow> Panic p
      | Done (e, sc1) \<Rightarrow> Done (CloseRes e, sc1, snd s))"
| "sc_step RunWriter s = Done (NoRes, processWriteQueue (fst s) (snd s), snd s)"
| "sc_step (RunDelayed i) s =
     (case Write_goroutine i s of
        Blocked \<Rightarrow> Blocked
      | Panic p \<Rightarrow> Panic p
      | Done s1 \<Rightarrow> Done (NoRes, s1))"

fun sc_run ::
  "sc_call list \<Rightarrow> simulatedConn \<times> world \<Rightarrow> (sc_result list \<times> simulatedConn \<times> world) outcome"
where
  "sc_run [] s = Done ([], s)"
| "sc_run (c # cs) s =
     (case sc_step c s of
        Blocked \<Rightarrow> Blocked
      | Panic p \<Rightarrow> Panic p
      | Done (r, s1) \<Rightarrow>
          (case sc_run cs s1 of
             Blocked \<Rightarrow> Blocked
           | Panic p \<Rightarrow> Panic p
           | Done (rs, s2) \<Rightarrow> Done (r # rs, s2)))"

fun written :: "sc_call list \<Rightarrow> bytes list" where
  "written [] = []"
| "written (CallWrite b # cs) = b # written cs"
| "written (c # cs) = written cs"

fun writes_and_writer :: "sc_call list \<Rightarrow> bool" where
  "writes_and_writer [] = True"
| "writes_and_writer (CallWrite b # cs) = writes_and_writer cs"
| "writes_and_writer (RunWriter # cs) = writes_and_writer cs"
| "writes_and_writer (c # cs) = False"

text \<open>
  The decisions of a stream shim read off one after the other: each is the value returned by
  \<open>simulateLoss\<close>, \<open>simulateDuplication\<close> or \<open>simulateReordering\<close>, called in the given order.
\<close>

datatype effect = Loss | Duplication | Reordering

fun sc_decide :: "effect \<Rightarrow> simulatedConn \<Rightarrow> world \<Rightarrow> bool \<times> world" where
  "sc_decide Loss sc w = sc_simulateLoss sc w"
| "sc_decide Duplication sc w = sc_simulateDuplication sc w"
| "sc_decide Reordering sc w = sc_simulateReordering sc w"

fun sc_decisions :: "effect list \<Rightarrow> simulatedConn \<Rightarrow> world \<Rightarrow> bool list" where
  "sc_decisions [] sc w = []"
| "sc_decisions (e # es) sc w = (case sc_decide e sc w of (d, w1) \<Rightarrow> d # sc_decisions es sc w1)"

fun rate_of :: "effect \<Rightarrow> Config \<Rightarrow> real" where
  "rate_of Loss c = LossRate c"
| "rate_of Duplication c = DuplicateRate c"
| "rate_of Reordering c = ReorderRate c"

text \<open>
  The profile with every effect disabled, and a shim none of whose parts is closed (nothing
  is ever sent on the channel \<open>closed\<close>).
\<close>

definition no_effects :: "Config \<Rightarrow> bool" where
  "no_effects c =
     (LossRate c = 0 \<and> DuplicateRate c = 0 \<and> ReorderRate c = 0 \<and>
      Latency c = 0 \<and> Jitter c = 0 \<and> Bandwidth c = 0)"

definition sc_open :: "simulatedConn \<Rightarrow> bool" where
  "sc_open sc =
     (\<not> can_recv (sc_closed sc) \<and> \<not> ch_closed (sc_writeQueue sc) \<and> \<not> nc_closed (sc_conn sc))"

text \<open>
  Concrete inputs: a seed-to-stream map standing for the library's, an initial world for a
  profile, and real connections on which nothing has happened yet.
\<close>

definition example_gen :: "int \<Rightarrow> nat \<Rightarrow> nat" where
  "example_gen seed i = nat \<bar>seed\<bar> * (i + 1)"

definition init_world :: "Config \<Rightarrow> world" where
  "init_world c =
     \<lparr>cfg = c, rands = (\<lambda>p. NewSource example_gen 0), nrands = 0, gen = example_gen,
      slept = 0, dials = [], sel_first = True\<rparr>"

definition example_conn :: "(bytes \<times> error option) list \<Rightarrow> netConn" where
  "example_conn script = \<lparr>nc_rx = script, nc_tx = [], nc_closed = False\<rparr>"

definition example_pconn :: "addr option \<Rightarrow> packetConn" where
  "example_pconn laddr = \<lparr>pc_laddr = laddr, pc_rx = [], pc_tx = [], pc_closed = False\<rparr>"

definition example_listen :: "addr option \<Rightarrow> error + packetConn" where
  "example_listen laddr = Inr (example_pconn laddr)"

definition example_dialer :: Dialer where
  "example_dialer = \<lparr>dialer = (\<lambda>network address. Inl (NetErr ''connection refused''))\<rparr>"


definition example_shim :: "Config \<Rightarrow> (bytes \<times> error option) list \<Rightarrow> simulatedConn \<times> world" where
  "example_shim c script = wrapConn 0 (example_conn script) (init_world c)"

section \<open>Properties of the draws\<close>

lemmas config_defs = NewConfig_def apply_opts_def WithLatency_def WithJitter_def
  WithBandwidth_def WithLossRate_def WithReorderRate_def WithDuplicateRate_def
  WithPartitionedAddrs_def WithSeed_def

lemmas draw_defs = sc_simulateLoss_def sc_simulateReordering_def sc_simulateDuplication_def
  spc_simulateLoss_def spc_simulateReordering_def spc_simulateDuplication_def

lemma Float64_range: "0 \<le> fst (Float64 r) \<and> fst (Float64 r) < 1"
  by (simp add: Float64_def)

lemma rand_Float64_range: "0 \<le> fst (rand_Float64 p w) \<and> fst (rand_Float64 p w) < 1"
  using Float64_range [of "rands w p"]
  by (auto simp: rand_Float64_def split: prod.splits)

lemma rand_Float64_frame:
  "cfg (snd (rand_Float64 p w)) = cfg w \<and> sel_first (snd (rand_Float64 p w)) = sel_first w \<and>
   slept (snd (rand_Float64 p w)) = slept w \<and> dials (snd (rand_Float64 p w)) = dials w"
  by (simp add: rand_Float64_def split: prod.splits)

lemma sc_decide_zero: "rate_of x (cfg w) = 0 \<Longrightarrow> sc_decide x sc w = (False, w)"
  by (cases x) (simp_all add: draw_defs)

lemma sc_decide_cfg: "cfg (snd (sc_decide e sc w)) = cfg w"
  using rand_Float64_frame [of "sc_rand sc" w]
  by (cases e) (auto simp: draw_defs split: prod.splits)

lemma disabled_effect_invisible:
  "rate_of x (cfg w) = 0 \<Longrightarrow>
   map snd (filter (\<lambda>p. fst p \<noteq> x) (zip es (sc_decisions es sc w))) =
     sc_decisions (filter (\<lambda>e. e \<noteq> x) es) sc w"
proof (induction es arbitrary: w)
  case Nil
  then show ?case by simp
next
  case (Cons e es)
  show ?case
  proof (cases "e = x")
    case True
    with Cons.prems have "sc_decide e sc w = (False, w)"
      by (simp add: sc_decide_zero)
    with True Cons.IH [OF Cons.prems] show ?thesis by simp
  next
    case False
    obtain d w1 where d: "sc_decide e sc w = (d, w1)"
      by (cases "sc_decide e sc w")
    with sc_decide_cfg [of e sc w] Cons.prems have "rate_of x (cfg w1) = 0"
      by simp
    from Cons.IH [OF this] False d show ?thesis by simp
  qed
qed

text \<open>
  C5. When the rate of an effect is 0, the decision function of that effect, in either shim,
  returns false and leaves the whole world as it was: in particular the random source has
  not advanced. Hence, in any sequence of decisions of a stream shim, the decisions of the
  other effects are what they are in the sequence with the calls for that effect left out.
\<close>

theorem zero_rate_consumes_no_randomness:
  "(LossRate (cfg w) = 0 \<longrightarrow>
      sc_simulateLoss sc w = (False, w) \<and> spc_simulateLoss spc w = (False, w)) \<and>
   (DuplicateRate (cfg w) = 0 \<longrightarrow>
      sc_simulateDuplication sc w = (False, w) \<and> spc_simulateDuplication spc w = (False, w)) \<and>
   (ReorderRate (cfg w) = 0 \<longrightarrow>
      sc_simulateReordering sc w = (False, w) \<and> spc_simulateReordering spc w = (False, w)) \<and>
   (rate_of x (cfg w) = 0 \<longrightarrow>
      map snd (filter (\<lambda>p. fst p \<noteq> x) (zip es (sc_decisions es sc w))) =
        sc_decisions (filter (\<lambda>e. e \<noteq> x) es) sc w)"
  using disabled_effect_invisible [of x w es sc] by (simp add: draw_defs)

theorem zero_rate_consumes_no_randomness_witness:
  "LossRate (cfg (init_world (NewConfig [WithDuplicateRate (1 / 2)]))) = 0 \<and>
   ReorderRate (cfg (init_world (NewConfig [WithDuplicateRate (1 / 2)]))) = 0 \<and>
   rate_of Loss (cfg (init_world (NewConfig [WithDuplicateRate (1 / 2)]))) = 0 \<and>
   (\<forall>sc spc.
      sc_simulateLoss sc (init_world (NewConfig [WithDuplicateRate (1 / 2)])) =
        (False, init_world (NewConfig [WithDuplicateRate (1 / 2)])) \<and>
      spc_simulateLoss spc (init_world (NewConfig [WithDuplicateRate (1 / 2)])) =
        (False, init_world (NewConfig [WithDuplicateRate (1 / 2)])) \<and>
      sc_simulateReordering sc (init_world (NewConfig [WithDuplicateRate (1 / 2)])) =
        (False, init_world (NewConfig [WithDuplicateRate (1 / 2)])) \<and>
      spc_simulateReordering spc (init_world (NewConfig [WithDuplicateRate (1 / 2)])) =
        (False, init_world (NewConfig [WithDuplicateRate (1 / 2)])) \<and>
      map snd (filter (\<lambda>p. fst p \<noteq> Loss)
                 (zip [Loss, Duplication, Loss, Duplication]
                    (sc_decisions [Loss, Duplication, Loss, Duplication] sc
                       (init_world (NewConfig [WithDuplicateRate (1 / 2)]))))) =
        sc_decisions (filter (\<lambda>e. e \<noteq> Loss) [Loss, Duplication, Loss, Duplication]) sc
          (init_world (NewConfig [WithDuplicateRate (1 / 2)])))"
proof -
  let ?w = "init_world (NewConfig [WithDuplicateRate (1 / 2)])"
  have z: "LossRate (cfg ?w) = 0" "ReorderRate (cfg ?w) = 0" "rate_of Loss (cfg ?w) = 0"
    by (simp_all add: init_world_def config_defs)
  show ?thesis
    using z zero_rate_consumes_no_randomness [where w = ?w and x = Loss
        and es = "[Loss, Duplication, Loss, Duplication]"]
    by blast
qed

section \<open>Partitions and dial failures\<close>

lemma Errorf_not_cause: "e \<noteq> Errorf ErrDialFailed (Error e)"
proof
  assume a: "e = Errorf ErrDialFailed (Error e)"
  then have "Error e = Error (Errorf ErrDialFailed (Error e))" by simp
  then have "length (Error e) = length (Error (Errorf ErrDialFailed (Error e)))" by simp
  then show False by simp
qed

lemma dial_error_wraps_sentinel_only:
  "errors_Is (Errorf ErrDialFailed (Error e)) ErrDialFailed \<and>
   Error (Errorf ErrDialFailed (Error e)) = ''simnet: dial failed: '' @ Error e \<and>
   (errors_Is (Errorf ErrDialFailed (Error e)) e \<longleftrightarrow> e = ErrDialFailed)"
  using Errorf_not_cause [of e] by auto

text \<open>
  The claim C6 as it is written fails in its last part: when the real dial to
  \<open>10.0.0.2:80\<close> fails with \<open>connection refused\<close>, the error that \<open>DialContext\<close> returns
  wraps \<open>ErrDialFailed\<close> and not the cause, which is only spelled out in its message.
\<close>

theorem dial_failure_does_not_wrap_cause:
  "dialer example_dialer ''tcp'' ''10.0.0.2:80'' = Inl (NetErr ''connection refused'') \<and>
   DialContext 0 example_dialer ''tcp'' ''10.0.0.2:80'' (init_world (NewConfig [])) =
     (Inl (Errorf ErrDialFailed ''connection refused''),
      (init_world (NewConfig []))\<lparr>dials := [(''tcp'', ''10.0.0.2:80'')]\<rparr>) \<and>
   \<not> errors_Is (Errorf ErrDialFailed ''connection refused'') (NetErr ''connection refused'')"
  by (simp add: DialContext_def isPartitioned_def init_world_def config_defs example_dialer_def)

text \<open>
  C6, amended. For an address that is a key of the partition map, \<open>DialContext\<close> returns an
  error wrapping \<open>ErrNetworkPartitioned\<close> and leaves the world unchanged (no connection
  attempt is recorded), and \<open>WriteTo\<close> returns 0 and such an error and leaves the shim and
  the world unchanged (nothing is queued or transmitted, and the random source has not
  advanced). For an address that is not a key, when the real dial fails with \<open>e\<close>,
  \<open>DialContext\<close> returns, after the one real attempt, an error that wraps the sentinel
  \<open>ErrDialFailed\<close> and whose message is that of the sentinel followed by the message of \<open>e\<close>;
  the cause \<open>e\<close> itself is not wrapped.
\<close>

theorem partition_and_dial_errors:
  "(PartitionedAddrs (cfg w) a \<noteq> None \<longrightarrow>
      DialContext now d network a w =
        (Inl (Errorf ErrNetworkPartitioned (''unable to reach address: '' @ a)), w) \<and>
      WriteTo p a (spc, w) =
        Done ((0, Some (Errorf ErrNetworkPartitioned (''unable to reach address: '' @ a))),
              spc, w)) \<and>
   (PartitionedAddrs (cfg w) a = None \<and> dialer d network a = Inl e \<longrightarrow>
      DialContext now d network a w =
        (Inl (Errorf ErrDialFailed (Error e)), w\<lparr>dials := dials w @ [(network, a)]\<rparr>) \<and>
      errors_Is (Errorf ErrDialFailed (Error e)) ErrDialFailed \<and>
      Error (Errorf ErrDialFailed (Error e)) = ''simnet: dial failed: '' @ Error e \<and>
      (errors_Is (Errorf ErrDialFailed (Error e)) e \<longleftrightarrow> e = ErrDialFailed))"
  using dial_error_wraps_sentinel_only [of e]
  by (auto simp: DialContext_def WriteTo_def isPartitioned_def)

theorem partition_and_dial_errors_witness:
  "PartitionedAddrs (cfg (AddPartition ''10.0.0.1:80'' (init_world (NewConfig [])))) ''10.0.0.1:80'' \<noteq> None \<and>
   DialContext 0 example_dialer ''tcp'' ''10.0.0.1:80''
       (AddPartition ''10.0.0.1:80'' (init_world (NewConfig []))) =
     (Inl (Errorf ErrNetworkPartitioned ''unable to reach address: 10.0.0.1:80''),
      AddPartition ''10.0.0.1:80'' (init_world (NewConfig []))) \<and>
   (\<forall>spc. WriteTo ''Hello, simnet!'' ''10.0.0.1:80''
            (spc, AddPartition ''10.0.0.1:80'' (init_world (NewConfig []))) =
          Done ((0, Some (Errorf ErrNetworkPartitioned ''unable to reach address: 10.0.0.1:80'')),
                spc, AddPartition ''10.0.0.1:80'' (init_world (NewConfig [])))) \<and>
   PartitionedAddrs (cfg (AddPartition ''10.0.0.1:80'' (init_world (NewConfig [])))) ''10.0.0.2:80'' = None \<and>
   dialer example_dialer ''tcp'' ''10.0.0.2:80'' = Inl (NetErr ''connection refused'') \<and>
   DialContext 0 example_dialer ''tcp'' ''10.0.0.2:80''
       (AddPartition ''10.0.0.1:80'' (init_world (NewConfig []))) =
     (Inl (Errorf ErrDialFailed ''connection refused''),
      (AddPartition ''10.0.0.1:80'' (init_world (NewConfig [])))\<lparr>dials := [(''tcp'', ''10.0.0.2:80'')]\<rparr>) \<and>
   errors_Is (Errorf ErrDialFailed ''connection refused'') ErrDialFailed \<and>
   Error (Errorf ErrDialFailed ''connection refused'') = ''simnet: dial failed: connection refused'' \<and>
   \<not> errors_Is (Errorf ErrDialFailed ''connection refused'') (NetErr ''connection refused'')"
proof -
  let ?w = "AddPartition ''10.0.0.1:80'' (init_world (NewConfig []))"
  have p: "PartitionedAddrs (cfg ?w) ''10.0.0.1:80'' \<noteq> None"
    by (simp add: AddPartition_def)
  have q: "PartitionedAddrs (cfg ?w) ''10.0.0.2:80'' = None"
    by (simp add: AddPartition_def init_world_def config_defs)
  have f: "dialer example_dialer ''tcp'' ''10.0.0.2:80'' = Inl (NetErr ''connection refused'')"
    by (simp add: example_dialer_def)
  have d: "dials ?w = []"
    by (simp add: AddPartition_def init_world_def)
  from p q f d show ?thesis
    using partition_and_dial_errors [where w = ?w and a = "''10.0.0.1:80''" and now = 0
        and d = example_dialer and network = "''tcp''" and p = "''Hello, simnet!''"]
      partition_and_dial_errors [where w = ?w and a = "''10.0.0.2:80''" and now = 0
        and d = example_dialer and network = "''tcp''" and e = "NetErr ''connection refused''"]
    by simp
qed

section \<open>UDPConn and its remote address\<close>

text \<open>
  C10. \<open>UDPConn\<close> gives the same connection and the same world for any two values of
  \<open>raddr\<close>, so nothing done with the connection afterwards can depend on it; the field
  \<open>remoteAddr\<close> of the connection is left nil.
\<close>

theorem UDPConn_independent_of_raddr:
  "UDPConn listen now cfg_nil laddr raddr1 w = UDPConn listen now cfg_nil laddr raddr2 w \<and>
   (case fst (UDPConn listen now cfg_nil laddr raddr1 w) of
      Inl err \<Rightarrow> True
    | Inr spc \<Rightarrow> spc_remoteAddr spc = None)"
  by (simp add: UDPConn_def newSimulatedPacketConn_def split: sum.splits prod.splits)


section \<open>Loss on the stream shim\<close>

lemma example_shim_eq:
  "cfg_rand c = None \<Longrightarrow>
   example_shim c script =
     (\<lparr>sc_conn = example_conn script, sc_rand = 0, sc_readBuf = [],
       sc_writeQueue = make_chan 100, sc_closeOnce = False, sc_closed = make_chan 0,
       sc_delayed = []\<rparr>,
      (init_world c)\<lparr>rands := (rands (init_world c))
                        (0 := if Seed c \<noteq> 0 then NewSource example_gen (Seed c)
                              else NewSource example_gen 0),
                     nrands := 1, cfg := c\<lparr>cfg_rand := Some 0\<rparr>\<rparr>)"
  by (simp add: example_shim_def wrapConn_def randSource_def init_world_def)

lemma loss_rate_one:
  assumes "LossRate (cfg w) = 1"
  shows "fst (sc_simulateLoss sc w) \<and> cfg (snd (sc_simulateLoss sc w)) = cfg w \<and>
         sel_first (snd (sc_simulateLoss sc w)) = sel_first w"
  using assms rand_Float64_range [of "sc_rand sc" w] rand_Float64_frame [of "sc_rand sc" w]
  by (auto simp: sc_simulateLoss_def split: prod.splits)

lemma Write_lost:
  "sc_simulateLoss sc w = (True, w1) \<Longrightarrow> Write b (sc, w) = Done ((length b, None), sc, w1)"
  by (simp add: Write_def)

lemma Read_lost:
  "sc_simulateLoss sc w = (True, w1) \<Longrightarrow> Read b (sc, w) = Done ((0, Some EOF, b), sc, w1)"
  by (simp add: Read_def)

lemma processWriteQueue_iter_sel:
  "sel_first w2 = sel_first w \<Longrightarrow> processWriteQueue_iter sc w2 = processWriteQueue_iter sc w"
  by (simp add: processWriteQueue_iter_def)

lemma processWriteQueue_sel:
  "sel_first w2 = sel_first w \<Longrightarrow> processWriteQueue sc w2 = processWriteQueue sc w"
proof (induction sc w rule: processWriteQueue.induct)
  case (1 sc w)
  have i: "processWriteQueue_iter sc w2 = processWriteQueue_iter sc w"
    using "1.prems" by (rule processWriteQueue_iter_sel)
  show ?case
  proof (cases "processWriteQueue_iter sc w")
    case (Done r)
    obtain go sc1 where r: "r = (go, sc1)" by (cases r)
    show ?thesis
    proof (cases go)
      case True
      with Done r "1.IH" [of r go sc1] "1.prems" i show ?thesis
        by (subst (1 2) processWriteQueue.simps) simp
    next
      case False
      with Done r i show ?thesis
        by (subst (1 2) processWriteQueue.simps) simp
    qed
  next
    case (Panic p)
    with i show ?thesis by (subst (1 2) processWriteQueue.simps) simp
  next
    case Blocked
    with i show ?thesis by (subst (1 2) processWriteQueue.simps) simp
  qed
qed

lemma Write_all_loss_rate_one:
  "LossRate (cfg w) = 1 \<Longrightarrow>
   \<exists>w1. Write_all bs (sc, w) = Done (map (\<lambda>b. (length b, None)) bs, sc, w1) \<and>
        cfg w1 = cfg w \<and> sel_first w1 = sel_first w"
proof (induction bs arbitrary: w)
  case Nil
  then show ?case by simp
next
  case (Cons b bs)
  obtain w1 where l: "sc_simulateLoss sc w = (True, w1)" and c: "cfg w1 = cfg w"
    and s: "sel_first w1 = sel_first w"
    using loss_rate_one [OF Cons.prems, of sc] by (cases "sc_simulateLoss sc w") auto
  from Cons.prems c have "LossRate (cfg w1) = 1" by simp
  from Cons.IH [OF this] obtain w2 where
    "Write_all bs (sc, w1) = Done (map (\<lambda>b. (length b, None)) bs, sc, w2)"
    "cfg w2 = cfg w1" "sel_first w2 = sel_first w1" by blast
  with l c s show ?case by (simp add: Write_lost)
qed

text \<open>
  C7. When the loss draw of a \<open>Write\<close> succeeds, \<open>Write\<close> returns the full length and no
  error and leaves the shim unchanged: nothing is queued, no goroutine is started and the
  real connection is not touched. When the loss draw of a \<open>Read\<close> succeeds, \<open>Read\<close> returns
  0 and \<open>EOF\<close>, leaves the caller's buffer and the shim unchanged and does not read the real
  connection. With loss rate 1 the draw always succeeds: any sequence of writes returns
  success for each payload and leaves the shim unchanged, so what the writer goroutine
  transmits afterwards is what it would have transmitted before them.
\<close>

theorem stream_loss_reports_success_and_eof:
  "(sc_simulateLoss sc w = (True, w1) \<longrightarrow>
      Write b (sc, w) = Done ((length b, None), sc, w1) \<and>
      Read b (sc, w) = Done ((0, Some EOF, b), sc, w1)) \<and>
   (LossRate (cfg w) = 1 \<longrightarrow>
      (\<exists>w2. Write_all bs (sc, w) = Done (map (\<lambda>b. (length b, None)) bs, sc, w2) \<and>
            processWriteQueue sc w2 = processWriteQueue sc w))"
proof (intro conjI impI)
  assume "LossRate (cfg w) = 1"
  from Write_all_loss_rate_one [OF this, of bs sc] obtain w2 where
    "Write_all bs (sc, w) = Done (map (\<lambda>b. (length b, None)) bs, sc, w2)"
    "sel_first w2 = sel_first w" by blast
  then show "\<exists>w2. Write_all bs (sc, w) = Done (map (\<lambda>b. (length b, None)) bs, sc, w2) \<and>
            processWriteQueue sc w2 = processWriteQueue sc w"
    using processWriteQueue_sel [of w2 w sc] by blast
qed (simp_all add: Write_lost Read_lost)

theorem stream_loss_reports_success_and_eof_witness:
  "LossRate (cfg (snd (example_shim (NewConfig [WithLossRate 1]) []))) = 1 \<and>
   fst (sc_simulateLoss (fst (example_shim (NewConfig [WithLossRate 1]) []))
          (snd (example_shim (NewConfig [WithLossRate 1]) []))) \<and>
   Write ''PING'' (example_shim (NewConfig [WithLossRate 1]) []) =
     Done ((length ''PING'', None), fst (example_shim (NewConfig [WithLossRate 1]) []),
           snd (sc_simulateLoss (fst (example_shim (NewConfig [WithLossRate 1]) []))
                  (snd (example_shim (NewConfig [WithLossRate 1]) [])))) \<and>
   Read ''PING'' (example_shim (NewConfig [WithLossRate 1]) []) =
     Done ((0, Some EOF, ''PING''), fst (example_shim (NewConfig [WithLossRate 1]) []),
           snd (sc_simulateLoss (fst (example_shim (NewConfig [WithLossRate 1]) []))
                  (snd (example_shim (NewConfig [WithLossRate 1]) [])))) \<and>
   (\<exists>w2. Write_all [''PING'', ''PONG''] (example_shim (NewConfig [WithLossRate 1]) []) =
            Done (map (\<lambda>b. (length b, None)) [''PING'', ''PONG''],
                  fst (example_shim (NewConfig [WithLossRate 1]) []), w2))"
proof -
  let ?s = "example_shim (NewConfig [WithLossRate 1]) []"
  have r: "LossRate (cfg (snd ?s)) = 1"
    by (simp add: example_shim_eq config_defs)
  from loss_rate_one [OF r, of "fst ?s"]
  have f: "fst (sc_simulateLoss (fst ?s) (snd ?s))" by simp
  then have l: "sc_simulateLoss (fst ?s) (snd ?s) = (True, snd (sc_simulateLoss (fst ?s) (snd ?s)))"
    by (cases "sc_simulateLoss (fst ?s) (snd ?s)") simp
  have s: "(fst ?s, snd ?s) = ?s" by simp
  from r f l show ?thesis
    using stream_loss_reports_success_and_eof [where sc = "fst ?s" and w = "snd ?s"
        and ?w1.0 = "snd (sc_simulateLoss (fst ?s) (snd ?s))" and b = "''PING''"
        and bs = "[''PING'', ''PONG'']"]
    unfolding s by blast
qed


section \<open>The stream shim with every effect disabled\<close>

lemma no_effects_draws:
  assumes "no_effects (cfg w)"
  shows "sc_simulateLoss sc w = (False, w)" "sc_simulateDuplication sc w = (False, w)"
    "sc_simulateReordering sc w = (False, w)" "sc_simulateLatency n sc w = w"
  using assms
  by (simp_all add: no_effects_def draw_defs sc_simulateLatency_def calculateLatency_def)

lemma Write_no_effects:
  assumes "no_effects (cfg w)" and "\<not> can_recv (sc_closed sc)"
  shows "Write b (sc, w) =
           (case chan_send b (sc_writeQueue sc) of
              Done q \<Rightarrow> Done ((length b, None), sc\<lparr>sc_writeQueue := q\<rparr>, w)
            | Panic p \<Rightarrow> Panic p
            | Blocked \<Rightarrow> Blocked)"
  using assms(2)
  by (simp add: Write_def no_effects_draws [OF assms(1)] enqueueWrite_def can_send_def
      chan_send_def select2_def)

lemma processWriteQueue_open:
  assumes "sc_open sc"
  shows "processWriteQueue sc w =
           sc\<lparr>sc_writeQueue := (sc_writeQueue sc)\<lparr>ch_buf := []\<rparr>,
              sc_conn := (sc_conn sc)\<lparr>nc_tx := nc_tx (sc_conn sc) @ ch_buf (sc_writeQueue sc)\<rparr>\<rparr>"
  using assms
proof (induction "ch_buf (sc_writeQueue sc)" arbitrary: sc)
  case Nil
  then have "processWriteQueue_iter sc w = Blocked"
    by (simp add: processWriteQueue_iter_def can_recv_def sc_open_def select2_def)
  with Nil show ?case
    by (subst processWriteQueue.simps) simp
next
  case (Cons d rest)
  let ?sc1 = "sc\<lparr>sc_writeQueue := (sc_writeQueue sc)\<lparr>ch_buf := rest\<rparr>,
                 sc_conn := (sc_conn sc)\<lparr>nc_tx := nc_tx (sc_conn sc) @ [d]\<rparr>\<rparr>"
  from Cons.hyps(2) Cons.prems have it: "processWriteQueue_iter sc w = Done (True, ?sc1)"
    by (simp add: processWriteQueue_iter_def can_recv_def sc_open_def conn_Write_def
        select2_def flip: Cons.hyps(2))
  have r: "rest = ch_buf (sc_writeQueue ?sc1)" by simp
  have o: "sc_open ?sc1" using Cons.prems by (simp add: sc_open_def)
  have "processWriteQueue sc w = processWriteQueue ?sc1 w"
    using it by (subst processWriteQueue.simps) simp
  also have "\<dots> = ?sc1\<lparr>sc_writeQueue := (sc_writeQueue ?sc1)\<lparr>ch_buf := []\<rparr>,
              sc_conn := (sc_conn ?sc1)\<lparr>nc_tx := nc_tx (sc_conn ?sc1) @ ch_buf (sc_writeQueue ?sc1)\<rparr>\<rparr>"
    by (rule Cons.hyps(1) [OF r o])
  also have "\<dots> = sc\<lparr>sc_writeQueue := (sc_writeQueue sc)\<lparr>ch_buf := []\<rparr>,
              sc_conn := (sc_conn sc)\<lparr>nc_tx := nc_tx (sc_conn sc) @ ch_buf (sc_writeQueue sc)\<rparr>\<rparr>"
    by (simp flip: Cons.hyps(2))
  finally show ?case .
qed

lemma conn_Read_length:
  "conn_Read k c = Done ((d, e), c1) \<Longrightarrow> length d \<le> k"
  by (auto simp: conn_Read_def split: if_splits list.splits)

lemma copy_into_short:
  "length src \<le> length dst \<Longrightarrow> copy_into dst src = src @ drop (length src) dst"
  by (simp add: copy_into_def)

lemma Read_no_effects:
  assumes "no_effects (cfg w)"
  shows "Read b (sc, w) =
           (case conn_Read (length b) (sc_conn sc) of
              Done ((d, e), c) \<Rightarrow>
                Done ((length d, e, d @ drop (length d) b), sc\<lparr>sc_conn := c\<rparr>, w)
            | Panic p \<Rightarrow> Panic p
            | Blocked \<Rightarrow> Blocked)"
proof (cases "conn_Read (length b) (sc_conn sc)")
  case (Done r)
  obtain d e c where r: "r = ((d, e), c)" by (cases r) auto
  from Done r have "length d \<le> length b" by (auto dest: conn_Read_length)
  then show ?thesis
    using Done r
    by (simp add: Read_def no_effects_draws [OF assms] copy_into_short Let_def)
next
  case (Panic p)
  then show ?thesis by (simp add: Read_def no_effects_draws [OF assms])
next
  case Blocked
  then show ?thesis by (simp add: Read_def no_effects_draws [OF assms])
qed

lemma sc_step_no_effects:
  assumes "no_effects (cfg w)" and "sc_open sc" and "writes_and_writer [c]"
    and "sc_step c (sc, w) = Done (r, sc1, w1)"
  shows "w1 = w \<and> sc_open sc1 \<and>
         nc_tx (sc_conn sc1) @ ch_buf (sc_writeQueue sc1) =
           nc_tx (sc_conn sc) @ ch_buf (sc_writeQueue sc) @ written [c] \<and>
         (case c of CallWrite b \<Rightarrow> r = WriteRes (length b) None | _ \<Rightarrow> r = NoRes)"
proof (cases c)
  case (CallWrite b)
  with assms show ?thesis
    by (auto simp: Write_no_effects sc_open_def chan_send_def split: if_splits outcome.splits)
next
  case RunWriter
  have pw: "processWriteQueue sc w = sc\<lparr>sc_writeQueue := (sc_writeQueue sc)\<lparr>ch_buf := []\<rparr>,
              sc_conn := (sc_conn sc)\<lparr>nc_tx := nc_tx (sc_conn sc) @ ch_buf (sc_writeQueue sc)\<rparr>\<rparr>"
    by (rule processWriteQueue_open [OF assms(2)])
  show ?thesis
    using assms(2,4) RunWriter by (auto simp: pw sc_open_def)
qed (use assms in simp_all)

lemma sc_run_no_effects:
  assumes "no_effects (cfg w)"
  shows "sc_open sc \<Longrightarrow> writes_and_writer sched \<Longrightarrow> sc_run sched (sc, w) = Done (rs, sc1, w1) \<Longrightarrow>
         w1 = w \<and> sc_open sc1 \<and>
         nc_tx (sc_conn sc1) @ ch_buf (sc_writeQueue sc1) =
           nc_tx (sc_conn sc) @ ch_buf (sc_writeQueue sc) @ written sched \<and>
         rs = map (\<lambda>c. case c of CallWrite b \<Rightarrow> WriteRes (length b) None | _ \<Rightarrow> NoRes) sched"
proof (induction sched arbitrary: sc rs)
  case Nil
  then show ?case by simp
next
  case (Cons c cs)
  from Cons.prems(2) have wc: "writes_and_writer [c]" and wcs: "writes_and_writer cs"
    by (cases c; simp)+
  from Cons.prems(3) obtain r sc2 w2 rs2 where
    st: "sc_step c (sc, w) = Done (r, sc2, w2)" and
    rn: "sc_run cs (sc2, w2) = Done (rs2, sc1, w1)" and rs: "rs = r # rs2"
    by (auto split: outcome.splits)
  from sc_step_no_effects [OF assms Cons.prems(1) wc st]
  have a: "w2 = w" "sc_open sc2"
    "nc_tx (sc_conn sc2) @ ch_buf (sc_writeQueue sc2) =
       nc_tx (sc_conn sc) @ ch_buf (sc_writeQueue sc) @ written [c]"
    "(case c of CallWrite b \<Rightarrow> r = WriteRes (length b) None | _ \<Rightarrow> r = NoRes)"
    by simp_all
  from Cons.IH [OF a(2) wcs] rn a(1)
  have b: "w1 = w" "sc_open sc1"
    "nc_tx (sc_conn sc1) @ ch_buf (sc_writeQueue sc1) =
       nc_tx (sc_conn sc2) @ ch_buf (sc_writeQueue sc2) @ written cs"
    "rs2 = map (\<lambda>c. case c of CallWrite b \<Rightarrow> WriteRes (length b) None | _ \<Rightarrow> NoRes) cs"
    by simp_all
  have wr: "written (c # cs) = written [c] @ written cs"
    by (cases c) simp_all
  from a(4) have r: "r = (case c of CallWrite b \<Rightarrow> WriteRes (length b) None | _ \<Rightarrow> NoRes)"
    by (cases c) simp_all
  show ?case
    using b a(3) rs r wr by simp
qed

lemma write_then_drain:
  assumes "no_effects (cfg w)" and "0 < ch_cap (sc_writeQueue sc)"
  shows "sc_open sc \<Longrightarrow> ch_buf (sc_writeQueue sc) = [] \<Longrightarrow>
         sc_run (concat (map (\<lambda>b. [CallWrite b, RunWriter]) bs)) (sc, w) =
           Done (concat (map (\<lambda>b. [WriteRes (length b) None, NoRes]) bs),
                 sc\<lparr>sc_conn := (sc_conn sc)\<lparr>nc_tx := nc_tx (sc_conn sc) @ bs\<rparr>\<rparr>, w)"
  using assms(2)
proof (induction bs arbitrary: sc)
  case Nil
  then show ?case by simp
next
  case (Cons b bs)
  let ?q = "(sc_writeQueue sc)\<lparr>ch_buf := [b]\<rparr>"
  let ?sc1 = "sc\<lparr>sc_writeQueue := ?q\<rparr>"
  let ?sc2 = "sc\<lparr>sc_conn := (sc_conn sc)\<lparr>nc_tx := nc_tx (sc_conn sc) @ [b]\<rparr>\<rparr>"
  from Cons.prems have nr: "\<not> can_recv (sc_closed sc)" by (simp add: sc_open_def)
  have w1: "Write b (sc, w) = Done ((length b, None), ?sc1, w)"
    using Cons.prems by (simp add: Write_no_effects [OF assms(1) nr] chan_send_def sc_open_def)
  have o1: "sc_open ?sc1" using Cons.prems by (simp add: sc_open_def)
  have "processWriteQueue ?sc1 w = ?sc1\<lparr>sc_writeQueue := (sc_writeQueue ?sc1)\<lparr>ch_buf := []\<rparr>,
              sc_conn := (sc_conn ?sc1)\<lparr>nc_tx := nc_tx (sc_conn ?sc1) @ ch_buf (sc_writeQueue ?sc1)\<rparr>\<rparr>"
    by (rule processWriteQueue_open [OF o1])
  also have "\<dots> = ?sc2" using Cons.prems(2) by simp
  finally have p: "processWriteQueue ?sc1 w = ?sc2" .
  have o2: "sc_open ?sc2" "ch_buf (sc_writeQueue ?sc2) = []" "0 < ch_cap (sc_writeQueue ?sc2)"
    using Cons.prems by (simp_all add: sc_open_def)
  show ?case
    using Cons.IH [OF o2] by (simp add: w1 p)
qed

text \<open>
  C2. Let the profile have all three rates and latency, jitter and bandwidth 0, and let the
  shim and the real connection be open. Then:
  \<^item> writing the payloads \<open>bs\<close>, the writer goroutine taking a turn after each write,
    returns the full length and no error for each, leaves on the real connection exactly
    \<open>bs\<close>, in order and once each, after what was there, and changes nothing else: no
    draw is consumed and no time is slept (the writes do complete: the result is \<open>Done\<close>);
  \<^item> for any schedule of writes and writer turns that the queue's capacity lets complete,
    one more turn of the writer leaves on the real connection exactly what was there, what
    was queued, and the written payloads, in order;
  \<^item> \<open>Read\<close> returns what the real \<open>Read\<close> returns: its count, its error and its bytes at
    the front of the caller's buffer, and waits or fails when it does.
\<close>

theorem no_effects_stream_transparent:
  assumes "no_effects (cfg w)" and "sc_open sc"
  shows
    "(ch_buf (sc_writeQueue sc) = [] \<and> 0 < ch_cap (sc_writeQueue sc) \<longrightarrow>
        sc_run (concat (map (\<lambda>b. [CallWrite b, RunWriter]) bs)) (sc, w) =
          Done (concat (map (\<lambda>b. [WriteRes (length b) None, NoRes]) bs),
                sc\<lparr>sc_conn := (sc_conn sc)\<lparr>nc_tx := nc_tx (sc_conn sc) @ bs\<rparr>\<rparr>, w)) \<and>
     (writes_and_writer sched \<and> sc_run sched (sc, w) = Done (rs, sc1, w1) \<longrightarrow>
        w1 = w \<and>
        rs = map (\<lambda>c. case c of CallWrite b \<Rightarrow> WriteRes (length b) None | _ \<Rightarrow> NoRes) sched \<and>
        nc_tx (sc_conn (processWriteQueue sc1 w1)) =
          nc_tx (sc_conn sc) @ ch_buf (sc_writeQueue sc) @ written sched) \<and>
     Read b (sc, w) =
       (case conn_Read (length b) (sc_conn sc) of
          Done ((d, e), c) \<Rightarrow> Done ((length d, e, d @ drop (length d) b), sc\<lparr>sc_conn := c\<rparr>, w)
        | Panic p \<Rightarrow> Panic p
        | Blocked \<Rightarrow> Blocked)"
proof (intro conjI impI)
  assume "ch_buf (sc_writeQueue sc) = [] \<and> 0 < ch_cap (sc_writeQueue sc)"
  then show "sc_run (concat (map (\<lambda>b. [CallWrite b, RunWriter]) bs)) (sc, w) =
          Done (concat (map (\<lambda>b. [WriteRes (length b) None, NoRes]) bs),
                sc\<lparr>sc_conn := (sc_conn sc)\<lparr>nc_tx := nc_tx (sc_conn sc) @ bs\<rparr>\<rparr>, w)"
    using write_then_drain [OF assms(1) _ assms(2)] by blast
next
  assume a: "writes_and_writer sched \<and> sc_run sched (sc, w) = Done (rs, sc1, w1)"
  from sc_run_no_effects [OF assms(1) assms(2), of sched rs sc1 w1] a
  have b: "w1 = w" "sc_open sc1"
    "nc_tx (sc_conn sc1) @ ch_buf (sc_writeQueue sc1) =
       nc_tx (sc_conn sc) @ ch_buf (sc_writeQueue sc) @ written sched"
    "rs = map (\<lambda>c. case c of CallWrite b \<Rightarrow> WriteRes (length b) None | _ \<Rightarrow> NoRes) sched"
    by simp_all
  show "w1 = w" by (rule b(1))
  show "rs = map (\<lambda>c. case c of CallWrite b \<Rightarrow> WriteRes (length b) None | _ \<Rightarrow> NoRes) sched"
    by (rule b(4))
  show "nc_tx (sc_conn (processWriteQueue sc1 w1)) =
          nc_tx (sc_conn sc) @ ch_buf (sc_writeQueue sc) @ written sched"
    using b(3) by (simp add: processWriteQueue_open [OF b(2)])
next
  show "Read b (sc, w) =
       (case conn_Read (length b) (sc_conn sc) of
          Done ((d, e), c) \<Rightarrow> Done ((length d, e, d @ drop (length d) b), sc\<lparr>sc_conn := c\<rparr>, w)
        | Panic p \<Rightarrow> Panic p
        | Blocked \<Rightarrow> Blocked)"
    by (rule Read_no_effects [OF assms(1)])
qed


theorem no_effects_stream_transparent_witness:
  "no_effects (cfg (snd (example_shim (NewConfig []) [(''PONG'', None)]))) \<and>
   sc_open (fst (example_shim (NewConfig []) [(''PONG'', None)])) \<and>
   ch_buf (sc_writeQueue (fst (example_shim (NewConfig []) [(''PONG'', None)]))) = [] \<and>
   0 < ch_cap (sc_writeQueue (fst (example_shim (NewConfig []) [(''PONG'', None)]))) \<and>
   sc_run [CallWrite ''PING'', RunWriter, CallWrite ''ACK'', RunWriter]
       (example_shim (NewConfig []) [(''PONG'', None)]) =
     Done ([WriteRes 4 None, NoRes, WriteRes 3 None, NoRes],
           (fst (example_shim (NewConfig []) [(''PONG'', None)]))
             \<lparr>sc_conn := \<lparr>nc_rx = [(''PONG'', None)], nc_tx = [''PING'', ''ACK''],
                          nc_closed = False\<rparr>\<rparr>,
           snd (example_shim (NewConfig []) [(''PONG'', None)])) \<and>
   writes_and_writer [CallWrite ''PING'', CallWrite ''ACK''] \<and>
   sc_run [CallWrite ''PING'', CallWrite ''ACK''] (example_shim (NewConfig []) [(''PONG'', None)]) =
     Done ([WriteRes 4 None, WriteRes 3 None],
           (fst (example_shim (NewConfig []) [(''PONG'', None)]))
             \<lparr>sc_writeQueue := \<lparr>ch_buf = [''PING'', ''ACK''], ch_cap = 100, ch_closed = False\<rparr>\<rparr>,
           snd (example_shim (NewConfig []) [(''PONG'', None)])) \<and>
   nc_tx (sc_conn (processWriteQueue
       ((fst (example_shim (NewConfig []) [(''PONG'', None)]))
          \<lparr>sc_writeQueue := \<lparr>ch_buf = [''PING'', ''ACK''], ch_cap = 100, ch_closed = False\<rparr>\<rparr>)
       (snd (example_shim (NewConfig []) [(''PONG'', None)])))) = [''PING'', ''ACK''] \<and>
   Read ''XXXXXXXX'' (example_shim (NewConfig []) [(''PONG'', None)]) =
     Done ((4, None, ''PONGXXXX''),
           (fst (example_shim (NewConfig []) [(''PONG'', None)]))
             \<lparr>sc_conn := \<lparr>nc_rx = [], nc_tx = [], nc_closed = False\<rparr>\<rparr>,
           snd (example_shim (NewConfig []) [(''PONG'', None)]))"
proof -
  let ?q = "\<lparr>ch_buf = [''PING'', ''ACK''], ch_cap = 100, ch_closed = False\<rparr> :: bytes chan"
  obtain sc0 w0 where s: "example_shim (NewConfig []) [(''PONG'', None)] = (sc0, w0)"
    by (cases "example_shim (NewConfig []) [(''PONG'', None)]")
  have n: "cfg_rand (NewConfig []) = None" by (simp add: config_defs)
  from s have sc0: "sc0 = \<lparr>sc_conn = example_conn [(''PONG'', None)], sc_rand = 0, sc_readBuf = [],
       sc_writeQueue = make_chan 100, sc_closeOnce = False, sc_closed = make_chan 0,
       sc_delayed = []\<rparr>"
    and w0: "cfg w0 = (NewConfig [])\<lparr>cfg_rand := Some 0\<rparr>"
    by (auto simp: example_shim_eq [OF n])
  have e: "no_effects (cfg w0)"
    by (simp add: w0 no_effects_def config_defs)
  have o: "sc_open sc0"
    by (simp add: sc0 sc_open_def can_recv_def make_chan_def example_conn_def)
  have q: "ch_buf (sc_writeQueue sc0) = []" "0 < ch_cap (sc_writeQueue sc0)"
    by (simp_all add: sc0 make_chan_def)
  have c: "sc_conn sc0 = \<lparr>nc_rx = [(''PONG'', None)], nc_tx = [], nc_closed = False\<rparr>"
    "sc_writeQueue sc0 = \<lparr>ch_buf = [], ch_cap = 100, ch_closed = False\<rparr>"
    by (simp_all add: sc0 make_chan_def example_conn_def)
  have nr: "\<not> can_recv (sc_closed sc0)"
    using o by (simp add: sc_open_def)
  have w: "writes_and_writer [CallWrite ''PING'', CallWrite ''ACK'']" by simp
  have r: "sc_run [CallWrite ''PING'', CallWrite ''ACK''] (sc0, w0) =
             Done ([WriteRes 4 None, WriteRes 3 None], sc0\<lparr>sc_writeQueue := ?q\<rparr>, w0)"
    using nr by (simp add: Write_no_effects [OF e] chan_send_def c(2))
  from e o q w r show ?thesis
    using no_effects_stream_transparent [OF e o, where bs = "[''PING'', ''ACK'']"
        and sched = "[CallWrite ''PING'', CallWrite ''ACK'']"
        and rs = "[WriteRes 4 None, WriteRes 3 None]"
        and ?sc1.0 = "sc0\<lparr>sc_writeQueue := ?q\<rparr>" and ?w1.0 = w0
        and b = "''XXXXXXXX''"]
    unfolding s fst_conv snd_conv by (simp add: c conn_Read_def)
qed


section \<open>The latency formula\<close>

lemma int64_add: "int64 (int64 x + y) = int64 (x + y)"
proof -
  have "((x + 2 ^ 63) mod 2 ^ 64 + y) mod 2 ^ 64 = (x + 2 ^ 63 + y) mod (2 ^ 64 :: int)"
    by (rule mod_add_left_eq)
  moreover have "int64 x + y + 2 ^ 63 = (x + 2 ^ 63) mod 2 ^ 64 + y"
    by (simp add: int64_def)
  moreover have "x + 2 ^ 63 + y = x + y + (2 ^ 63 :: int)"
    by simp
  ultimately have "(int64 x + y + 2 ^ 63) mod 2 ^ 64 = (x + y + 2 ^ 63) mod (2 ^ 64 :: int)"
    by (simp only:)
  then show ?thesis
    unfolding int64_def [of "int64 x + y"] int64_def [of "x + y"] by (simp only:)
qed

lemma rand_Int63n_range:
  "0 < n \<Longrightarrow> 0 \<le> fst (rand_Int63n n p w) \<and> fst (rand_Int63n n p w) < n"
  by (simp add: rand_Int63n_def Int63n_def)

lemma rand_Int63n_frame: "cfg (snd (rand_Int63n n p w)) = cfg w"
  by (simp add: rand_Int63n_def Int63n_def)

lemma powi_nat: "0 \<le> e \<Longrightarrow> (2::real) powi e = 2 ^ nat e"
  by (simp add: power_int_def)

lemma powi_neg: "0 \<le> e \<Longrightarrow> (2::real) powi (- e) = 1 / 2 ^ nat e"
  by (simp add: power_int_def field_simps)

lemma powi_add1: "(2::real) powi (e + 1) = 2 * 2 powi e"
  by (simp add: power_int_add)

lemma exponent_bounds:
  assumes "0 < x"
  shows "2 powi exponent x \<le> x \<and> x < 2 powi (exponent x + 1)"
proof (cases "1 \<le> x")
  case True
  let ?p = "\<lfloor>x\<rfloor>"
  from True have p: "0 < ?p" by simp
  from bitlen_bounds [OF p] have b: "2 ^ nat (bitlen ?p - 1) \<le> ?p" "?p < 2 ^ nat (bitlen ?p)"
    by simp_all
  from p have b1: "1 \<le> bitlen ?p" by (simp add: bitlen_alt_def)
  have e: "exponent x = bitlen ?p - 1" using True by (simp add: exponent_def)
  have "(2::real) powi (bitlen ?p - 1) = of_int (2 ^ nat (bitlen ?p - 1))"
    using b1 by (simp add: powi_nat)
  also have "\<dots> \<le> of_int ?p" using b(1) by (simp only: of_int_le_iff)
  also have "\<dots> \<le> x" by simp
  finally have l: "2 powi (bitlen ?p - 1) \<le> x" .
  have "?p + 1 \<le> 2 ^ nat (bitlen ?p)" using b(2) by simp
  then have "real_of_int (?p + 1) \<le> of_int (2 ^ nat (bitlen ?p))" by (simp only: of_int_le_iff)
  moreover have "x < real_of_int (?p + 1)" by simp
  ultimately have "x < of_int (2 ^ nat (bitlen ?p))" by linarith
  also have "\<dots> = 2 powi (bitlen ?p - 1 + 1)" using b1 by (simp add: powi_nat)
  finally show ?thesis using l e by simp
next
  case False
  let ?y = "1 / x"
  let ?k = "\<lfloor>?y\<rfloor>"
  let ?b = "bitlen ?k"
  from False assms have y1: "1 < ?y" by simp
  then have k: "0 < ?k" by simp
  from bitlen_bounds [OF k] have b: "2 ^ nat (?b - 1) \<le> ?k" "?k < 2 ^ nat ?b"
    by simp_all
  from k have b1: "1 \<le> ?b" by (simp add: bitlen_alt_def)
  have "real_of_int (2 ^ nat (?b - 1)) \<le> of_int ?k" using b(1) by (simp only: of_int_le_iff)
  also have "\<dots> \<le> ?y" by simp
  finally have lo: "2 ^ nat (?b - 1) \<le> ?y" by simp
  have "?k + 1 \<le> 2 ^ nat ?b" using b(2) by simp
  then have "real_of_int (?k + 1) \<le> of_int (2 ^ nat ?b)" by (simp only: of_int_le_iff)
  moreover have "?y < real_of_int (?k + 1)" by simp
  ultimately have "?y < real_of_int (2 ^ nat ?b)" by linarith
  then have hi: "?y < 2 ^ nat ?b" by simp
  from lo assms have lo': "x * 2 ^ nat (?b - 1) \<le> 1"
    by (simp add: field_simps)
  from hi assms have hi': "1 < x * 2 ^ nat ?b"
    by (simp add: field_simps)
  show ?thesis
  proof (cases "x * 2 ^ nat (?b - 1) = 1")
    case True
    with False have e: "exponent x = 1 - ?b" by (simp add: exponent_def Let_def)
    have p: "(2::real) powi (1 - ?b) = 1 / 2 ^ nat (?b - 1)"
      using powi_neg [of "?b - 1"] b1 by simp
    from True have x: "x = 1 / 2 ^ nat (?b - 1)" by (simp add: field_simps)
    have "(2::real) powi (1 - ?b + 1) = 2 * 2 powi (1 - ?b)"
      by (rule powi_add1)
    with p x assms e show ?thesis by (simp only:) simp
  next
    case ne: False
    with False have e: "exponent x = - ?b" by (simp add: exponent_def Let_def)
    have p0: "(2::real) powi (- ?b) = 1 / 2 ^ nat ?b"
      using powi_neg [of ?b] b1 by simp
    have p1: "(2::real) powi (- ?b + 1) = 1 / 2 ^ nat (?b - 1)"
      using powi_neg [of "?b - 1"] b1 by simp
    from hi' have l: "1 / 2 ^ nat ?b < x" by (simp add: field_simps)
    from lo' ne have "x * 2 ^ nat (?b - 1) < 1" by simp
    then have u: "x < 1 / 2 ^ nat (?b - 1)" by (simp add: field_simps)
    from l u p0 p1 e show ?thesis by simp
  qed
qed

lemma powi_less_D: "(2::real) powi a < 2 powi b \<Longrightarrow> a < b"
proof (rule ccontr)
  assume l: "(2::real) powi a < 2 powi b" and "\<not> a < b"
  then have "b \<le> a" by simp
  then have "(2::real) powi b \<le> 2 powi a" by (rule power_int_increasing) simp
  with l show False by simp
qed

lemma exponent_unique:
  assumes "2 powi e \<le> x" and "x < 2 powi (e + 1)"
  shows "exponent x = e"
proof -
  have "(0::real) < 2 powi e" by simp
  with assms(1) have x: "0 < x" by linarith
  from exponent_bounds [OF x] have b: "2 powi exponent x \<le> x" "x < 2 powi (exponent x + 1)"
    by simp_all
  have "2 powi exponent x < (2::real) powi (e + 1)" using b(1) assms(2) by linarith
  then have 1: "exponent x < e + 1" by (rule powi_less_D)
  have "2 powi e < (2::real) powi (exponent x + 1)" using b(2) assms(1) by linarith
  then have 2: "e < exponent x + 1" by (rule powi_less_D)
  from 1 2 show ?thesis by simp
qed

lemma round_even_err: "\<bar>real_of_int (round_even y) - y\<bar> \<le> 1 / 2"
  by (simp add: round_even_def Let_def; linarith)

lemma round_even_int: "round_even (of_int m) = m"
  by (simp add: round_even_def)


lemma float64_eval:
  assumes "2 powi E \<le> \<bar>x\<bar>" and "\<bar>x\<bar> < 2 powi (E + 1)"
  shows "float64 x = of_int (round_even (x / 2 powi (E - 52))) * 2 powi (E - 52)"
proof -
  have "(0::real) < 2 powi E" by simp
  with assms(1) have "0 < \<bar>x\<bar>" by linarith
  then have "x \<noteq> 0" by simp
  with exponent_unique [OF assms] show ?thesis
    by (simp add: float64_def Let_def)
qed

lemma float64_exact_int:
  assumes "0 \<le> k" and "k < 2 ^ 53"
  shows "float64 (of_int k) = of_int k"
proof (cases "k = 0")
  case True
  then show ?thesis by (simp add: float64_def)
next
  case False
  with assms(1) have k: "0 < k" by simp
  let ?x = "real_of_int k"
  let ?E = "exponent ?x"
  from k have x: "0 < ?x" "1 \<le> ?x" by simp_all
  from exponent_bounds [OF x(1)] have b: "2 powi ?E \<le> ?x" "?x < 2 powi (?E + 1)"
    by simp_all
  have "(2::real) powi 0 < 2 powi (?E + 1)" using b(2) x(2) by simp
  then have "0 < ?E + 1" by (rule powi_less_D)
  then have E0: "0 \<le> ?E" by simp
  have "?x < 2 ^ 53" using assms(2) by (metis of_int_less_iff of_int_numeral of_int_power)
  then have "(2::real) powi ?E < 2 powi 53" using b(1) by simp
  then have E53: "?E < 53" by (rule powi_less_D)
  let ?d = "nat (52 - ?E)"
  have p: "(2::real) powi (?E - 52) = 1 / 2 ^ ?d"
    using powi_neg [of "52 - ?E"] E53 by simp
  have "?x / 2 powi (?E - 52) = of_int (k * 2 ^ ?d)"
    by (simp add: p)
  then have "round_even (?x / 2 powi (?E - 52)) = k * 2 ^ ?d"
    by (simp only: round_even_int)
  then have "float64 ?x = of_int (k * 2 ^ ?d) * (1 / 2 ^ ?d)"
    using False k by (simp add: float64_def Let_def p)
  then show ?thesis by simp
qed

lemma abs_scale:
  assumes "0 < (u::real)"
  shows "\<bar>m * u - x\<bar> = \<bar>m - x / u\<bar> * u"
proof -
  have "m * u - x = (m - x / u) * u"
    using assms by (simp add: field_simps)
  then show ?thesis
    using assms by (simp add: abs_mult)
qed

lemma abs_scale2:
  assumes "0 < (c::real)"
  shows "\<bar>a * c - b * c\<bar> = \<bar>a - b\<bar> * c"
proof -
  have "a * c - b * c = (a - b) * c" by (simp add: left_diff_distrib)
  then show ?thesis using assms by (simp add: abs_mult)
qed

lemma two_roundings:
  fixes r p x c :: real
  assumes "\<bar>r - p\<bar> \<le> p / c" and "\<bar>p - x\<bar> \<le> x / c" and "p / c \<le> 2 * x / c"
  shows "\<bar>r - x\<bar> \<le> 3 * x / c"
proof -
  have "2 * x / c + x / c = 3 * x / c"
    by (simp flip: add_divide_distrib)
  with assms show ?thesis by linarith
qed

lemma float64_err:
  assumes "0 < x"
  shows "\<bar>float64 x - x\<bar> \<le> x / 2 ^ 53"
proof -
  let ?e = "exponent x - 52"
  let ?y = "x / 2 powi ?e"
  let ?m = "real_of_int (round_even ?y)"
  have u: "(0::real) < 2 powi ?e" by simp
  have f: "float64 x = ?m * 2 powi ?e"
    using assms by (simp add: float64_def Let_def)
  have "\<bar>float64 x - x\<bar> = \<bar>?m - ?y\<bar> * 2 powi ?e"
    unfolding f by (rule abs_scale [OF u])
  also have "\<dots> \<le> 1 / 2 * 2 powi ?e"
    using round_even_err [of ?y] u by (intro mult_right_mono) simp_all
  also have "2 powi ?e = 2 powi exponent x / (2::real) ^ 52"
    by (simp add: power_int_diff)
  also have "1 / 2 * (2 powi exponent x / (2::real) ^ 52) = 2 powi exponent x / 2 ^ 53"
    by simp
  also have "\<dots> \<le> x / 2 ^ 53"
    using exponent_bounds [OF assms] by (simp add: divide_right_mono)
  finally show ?thesis .
qed


lemma float64_zero: "float64 0 = 0"
  by (simp add: float64_def)

lemma int64_of_float_zero: "int64_of_float 0 = 0"
  by (simp add: int64_of_float_def)

lemma transferTime_zero: "transferTime 0 bw = 0"
  by (simp add: transferTime_def float64_zero int64_of_float_zero)

lemma float64_Second: "float64 (real_of_int Second) = 10 ^ 9"
  using float64_exact_int [of Second] by (simp add: Second_def)

lemma int64_of_float_floor:
  assumes "0 \<le> r" and "r < 2 ^ 63"
  shows "int64_of_float r = \<lfloor>r\<rfloor>"
proof -
  have "0 \<le> \<lfloor>r\<rfloor>" using assms(1) by simp
  moreover have "\<lfloor>r\<rfloor> < 2 ^ 63" using assms(2) by (simp add: floor_less_iff)
  ultimately show ?thesis using assms(1) by (simp add: int64_of_float_def)
qed

lemma transferTime_bound:
  assumes "0 < bw" and "int n < 2 ^ 53" and "bw < 2 ^ 53"
    and "real n / real_of_int bw * 10 ^ 9 < 2 ^ 62"
  shows "\<bar>real_of_int (transferTime n bw) - real n / real_of_int bw * 10 ^ 9\<bar>
           \<le> 1 + 3 * (real n / real_of_int bw * 10 ^ 9) / 2 ^ 53"
proof (cases "n = 0")
  case True
  then show ?thesis by (simp add: transferTime_zero)
next
  case False
  let ?v = "real n / real_of_int bw"
  let ?x = "?v * 10 ^ 9"
  let ?q = "float64 ?v"
  let ?p = "?q * 10 ^ 9"
  let ?r = "float64 ?p"
  have a: "float64 (real n) = real n"
    using float64_exact_int [of "int n"] assms(2) by simp
  have b: "float64 (real_of_int bw) = real_of_int bw"
    using float64_exact_int [of bw] assms(1,3) by simp
  have t: "transferTime n bw = int64_of_float ?r"
    by (simp add: transferTime_def a b float64_Second)
  from False assms(1) have v: "0 < ?v" by simp
  from False assms(1) have x: "0 < ?x" by simp
  from float64_err [OF v] have eq: "\<bar>?q - ?v\<bar> \<le> ?v / 2 ^ 53" .
  have "?v / 2 ^ 53 < ?v" using v by simp
  with eq have q: "0 < ?q" by linarith
  then have p: "0 < ?p" by simp
  from float64_err [OF p] have er: "\<bar>?r - ?p\<bar> \<le> ?p / 2 ^ 53" .
  have "\<bar>?p - ?x\<bar> = \<bar>?q - ?v\<bar> * 10 ^ 9"
    by (rule abs_scale2) simp
  also have "\<dots> \<le> ?v / 2 ^ 53 * 10 ^ 9"
    using eq by (intro mult_right_mono) simp_all
  also have "\<dots> = ?x / 2 ^ 53" by simp
  finally have ep: "\<bar>?p - ?x\<bar> \<le> ?x / 2 ^ 53" .
  have "?x / 2 ^ 53 \<le> ?x" using x by simp
  with ep have p2: "?p \<le> 2 * ?x" by linarith
  then have "?p / 2 ^ 53 \<le> 2 * ?x / 2 ^ 53" by (simp add: divide_right_mono)
  with er ep have e: "\<bar>?r - ?x\<bar> \<le> 3 * ?x / 2 ^ 53" by (rule two_roundings)
  have small: "3 * ?x / 2 ^ 53 \<le> ?x" using x by simp
  with e have r0: "0 \<le> ?r" by linarith
  from e small assms(4) have "?r < 2 * 2 ^ 62" by linarith
  then have r63: "?r < 2 ^ 63" by simp
  have f: "real_of_int \<lfloor>?r\<rfloor> \<le> ?r" "?r < real_of_int \<lfloor>?r\<rfloor> + 1"
    by linarith+
  show ?thesis
    unfolding t int64_of_float_floor [OF r0 r63] using e f by linarith
qed

lemma transferTime_41_5: "transferTime 41 5 = 8199999999"
proof -
  have a: "float64 41 = 41" "float64 5 = 5"
    using float64_exact_int [of 41] float64_exact_int [of 5] by simp_all
  have q: "float64 (41 / 5) = 2308094809027379 / 2 ^ 48"
    by (subst float64_eval [where E = 3]) (simp_all add: round_even_def)
  have r: "float64 (2308094809027379 / 2 ^ 48 * 10 ^ 9) = 8598323199999999 / 2 ^ 20"
    by (subst float64_eval [where E = 32]) (simp_all add: round_even_def)
  have "transferTime 41 5 = int64_of_float (float64 (float64 (41 / 5) * 10 ^ 9))"
    unfolding transferTime_def float64_Second using a by simp
  also have "\<dots> = int64_of_float (8598323199999999 / 2 ^ 20)"
    unfolding q r ..
  also have "\<dots> = 8199999999"
    by (simp add: int64_of_float_def)
  finally show ?thesis .
qed

lemma transferTime_1024: "transferTime 1024 1024 = 1000000000"
proof -
  have a: "float64 1024 = 1024" "float64 1 = 1" "float64 1000000000 = 1000000000"
    using float64_exact_int [of 1024] float64_exact_int [of 1]
      float64_exact_int [of 1000000000] by simp_all
  show ?thesis
    using a by (simp add: transferTime_def float64_Second int64_of_float_def)
qed

lemma spc_simulateLatency_eq:
  "spc_rand spc = sc_rand sc \<Longrightarrow> spc_simulateLatency n spc w = calculateLatency n sc w"
  by (simp add: spc_simulateLatency_def calculateLatency_def cong: if_cong)

lemma calculateLatency_formula:
  assumes "int64 (Latency (cfg w)) = Latency (cfg w)"
  shows "calculateLatency n sc w =
           (int64 (Latency (cfg w)
                   + (if Jitter (cfg w) > 0
                      then fst (rand_Int63n (Jitter (cfg w)) (sc_rand sc) w) else 0)
                   + (if Bandwidth (cfg w) > 0 then transferTime n (Bandwidth (cfg w)) else 0)),
            if Jitter (cfg w) > 0 then snd (rand_Int63n (Jitter (cfg w)) (sc_rand sc) w) else w)"
proof (cases "Jitter (cfg w) > 0")
  case True
  obtain j w1 where d: "rand_Int63n (Jitter (cfg w)) (sc_rand sc) w = (j, w1)"
    by (cases "rand_Int63n (Jitter (cfg w)) (sc_rand sc) w")
  from rand_Int63n_frame [of "Jitter (cfg w)" "sc_rand sc" w] d have c: "cfg w1 = cfg w"
    by simp
  show ?thesis
    using True d c
    by (cases "n = 0") (simp_all add: calculateLatency_def int64_add transferTime_zero)
next
  case False
  then show ?thesis
    using assms
    by (cases "n = 0") (simp_all add: calculateLatency_def transferTime_zero)
qed

text \<open>
  The claim C8 as it is written fails: with no latency, no jitter, a cap of 5 bytes per
  second and a payload of 41 bytes the computed delay is 8199999999 ns, while 41 / 5
  seconds are 8200000000 ns. The quotient 8.2 is not a \<^verbatim>\<open>float64\<close>, and the rounded product
  lies just below the whole number.
\<close>

theorem transfer_time_is_rounded:
  "calculateLatency 41 (fst (example_shim (NewConfig [WithBandwidth 5]) []))
       (snd (example_shim (NewConfig [WithBandwidth 5]) [])) =
     (8199999999, snd (example_shim (NewConfig [WithBandwidth 5]) [])) \<and>
   real_of_int 8199999999 \<noteq>
     real_of_int (Latency (cfg (snd (example_shim (NewConfig [WithBandwidth 5]) []))))
       + 41 / 5 * 10 ^ 9"
proof -
  let ?c = "NewConfig [WithBandwidth 5]"
  obtain sc0 w0 where s: "example_shim ?c [] = (sc0, w0)"
    by (cases "example_shim ?c []")
  have n: "cfg_rand ?c = None"
    and v: "Latency ?c = 0" "Jitter ?c = 0" "Bandwidth ?c = 5"
    by (simp_all add: config_defs)
  from s have c: "cfg w0 = ?c\<lparr>cfg_rand := Some 0\<rparr>"
    by (auto simp: example_shim_eq [OF n])
  have "calculateLatency 41 sc0 w0 = (int64 (0 + transferTime 41 5), w0)"
    by (simp add: calculateLatency_def c v)
  also have "\<dots> = (8199999999, w0)"
    by (simp add: transferTime_41_5 int64_def)
  finally show ?thesis
    unfolding s fst_conv snd_conv by (simp add: c v)
qed

text \<open>
  C8, amended. For a profile whose base latency is an \<^verbatim>\<open>int64\<close> value and a payload of \<open>n\<close>
  bytes, the delay computed by the stream shim is, in the wrapping arithmetic of
  \<^verbatim>\<open>time.Duration\<close>, the base latency plus \<open>j\<close> plus the transfer time, where
  \<^item> when the jitter bound is positive, \<open>j\<close> is one draw \<^verbatim>\<open>Int63n(Jitter)\<close> from the shim's
    source, so \<open>0 \<le> j < Jitter\<close>, and otherwise \<open>j\<close> is 0 and the source is not touched;
  \<^item> when the bandwidth cap is positive, the transfer time is \<open>n / Bandwidth\<close> seconds as
    \<^verbatim>\<open>float64\<close> arithmetic gives them, cut down to whole nanoseconds, and otherwise it is left
    out; for \<open>n\<close> and the cap below \<open>2\<^sup>5\<^sup>3\<close> and a transfer time below \<open>2\<^sup>6\<^sup>2\<close> ns it differs
    from \<open>n / Bandwidth\<close> seconds by at most 1 ns and 3 parts in \<open>2\<^sup>5\<^sup>3\<close>;
  and the datagram shim's \<open>simulateLatency\<close> computes the same delay from the same source.
  (That the draw is uniform is a property of the library and is not stated.)
\<close>

theorem delay_is_latency_plus_jitter_plus_transfer:
  assumes "int64 (Latency (cfg w)) = Latency (cfg w)"
  shows
    "\<exists>j w1.
       calculateLatency n sc w =
         (int64 (Latency (cfg w) + j
                 + (if Bandwidth (cfg w) > 0 then transferTime n (Bandwidth (cfg w)) else 0)),
          w1) \<and>
       (if Jitter (cfg w) > 0
        then rand_Int63n (Jitter (cfg w)) (sc_rand sc) w = (j, w1) \<and> 0 \<le> j \<and> j < Jitter (cfg w)
        else j = 0 \<and> w1 = w) \<and>
       (0 < Bandwidth (cfg w) \<and> int n < 2 ^ 53 \<and> Bandwidth (cfg w) < 2 ^ 53 \<and>
        real n / real_of_int (Bandwidth (cfg w)) * 10 ^ 9 < 2 ^ 62 \<longrightarrow>
          \<bar>real_of_int (transferTime n (Bandwidth (cfg w)))
             - real n / real_of_int (Bandwidth (cfg w)) * 10 ^ 9\<bar>
            \<le> 1 + 3 * (real n / real_of_int (Bandwidth (cfg w)) * 10 ^ 9) / 2 ^ 53) \<and>
       (spc_rand spc = sc_rand sc \<longrightarrow>
          spc_simulateLatency n spc w = calculateLatency n sc w)"
proof -
  have tb: "0 < Bandwidth (cfg w) \<and> int n < 2 ^ 53 \<and> Bandwidth (cfg w) < 2 ^ 53 \<and>
        real n / real_of_int (Bandwidth (cfg w)) * 10 ^ 9 < 2 ^ 62 \<longrightarrow>
          \<bar>real_of_int (transferTime n (Bandwidth (cfg w)))
             - real n / real_of_int (Bandwidth (cfg w)) * 10 ^ 9\<bar>
            \<le> 1 + 3 * (real n / real_of_int (Bandwidth (cfg w)) * 10 ^ 9) / 2 ^ 53"
    using transferTime_bound [of "Bandwidth (cfg w)" n] by blast
  have eq: "spc_rand spc = sc_rand sc \<longrightarrow>
          spc_simulateLatency n spc w = calculateLatency n sc w"
    using spc_simulateLatency_eq [of spc sc n w] by blast
  show ?thesis
  proof (cases "Jitter (cfg w) > 0")
    case True
    obtain j w1 where d: "rand_Int63n (Jitter (cfg w)) (sc_rand sc) w = (j, w1)"
      by (cases "rand_Int63n (Jitter (cfg w)) (sc_rand sc) w")
    from rand_Int63n_range [OF True, of "sc_rand sc" w] d have r: "0 \<le> j" "j < Jitter (cfg w)"
      by simp_all
    have "calculateLatency n sc w =
         (int64 (Latency (cfg w) + j
                 + (if Bandwidth (cfg w) > 0 then transferTime n (Bandwidth (cfg w)) else 0)),
          w1)"
      using True d calculateLatency_formula [OF assms, of n sc] by simp
    with True d r tb eq show ?thesis
      by (intro exI [of _ j] exI [of _ w1]) (simp only: if_True simp_thms)
  next
    case False
    have "calculateLatency n sc w =
         (int64 (Latency (cfg w) + 0
                 + (if Bandwidth (cfg w) > 0 then transferTime n (Bandwidth (cfg w)) else 0)),
          w)"
      using False calculateLatency_formula [OF assms, of n sc] by simp
    with False tb eq show ?thesis
      by (intro exI [of _ 0] exI [of _ w]) (simp only: if_False simp_thms)
  qed
qed

theorem delay_is_latency_plus_jitter_plus_transfer_witness:
  "int64 (Latency (cfg (snd (example_shim
       (NewConfig [WithLatency 100, WithJitter 50, WithBandwidth 1024, WithSeed 42]) [])))) =
     Latency (cfg (snd (example_shim
       (NewConfig [WithLatency 100, WithJitter 50, WithBandwidth 1024, WithSeed 42]) []))) \<and>
   spc_rand (newSimulatedPacketConn (example_pconn None) 0) =
     sc_rand (fst (example_shim
       (NewConfig [WithLatency 100, WithJitter 50, WithBandwidth 1024, WithSeed 42]) [])) \<and>
   0 < Bandwidth (cfg (snd (example_shim
       (NewConfig [WithLatency 100, WithJitter 50, WithBandwidth 1024, WithSeed 42]) []))) \<and>
   int 1024 < 2 ^ 53 \<and>
   Bandwidth (cfg (snd (example_shim
       (NewConfig [WithLatency 100, WithJitter 50, WithBandwidth 1024, WithSeed 42]) []))) < 2 ^ 53 \<and>
   real 1024 / real_of_int 1024 * 10 ^ 9 < 2 ^ 62 \<and>
   \<bar>real_of_int (transferTime 1024 1024) - real 1024 / real_of_int 1024 * 10 ^ 9\<bar>
     \<le> 1 + 3 * (real 1024 / real_of_int 1024 * 10 ^ 9) / 2 ^ 53 \<and>
   fst (rand_Int63n 50 0 (snd (example_shim
       (NewConfig [WithLatency 100, WithJitter 50, WithBandwidth 1024, WithSeed 42]) []))) = 42 \<and>
   transferTime 1024 1024 = 1000000000 \<and>
   fst (calculateLatency 1024
       (fst (example_shim
          (NewConfig [WithLatency 100, WithJitter 50, WithBandwidth 1024, WithSeed 42]) []))
       (snd (example_shim
          (NewConfig [WithLatency 100, WithJitter 50, WithBandwidth 1024, WithSeed 42]) []))) =
     100 + 42 + 1000000000 \<and>
   spc_simulateLatency 1024 (newSimulatedPacketConn (example_pconn None) 0)
       (snd (example_shim
          (NewConfig [WithLatency 100, WithJitter 50, WithBandwidth 1024, WithSeed 42]) [])) =
     calculateLatency 1024
       (fst (example_shim
          (NewConfig [WithLatency 100, WithJitter 50, WithBandwidth 1024, WithSeed 42]) []))
       (snd (example_shim
          (NewConfig [WithLatency 100, WithJitter 50, WithBandwidth 1024, WithSeed 42]) []))"
proof -
  let ?c = "NewConfig [WithLatency 100, WithJitter 50, WithBandwidth 1024, WithSeed 42]"
  obtain sc0 w0 where s: "example_shim ?c [] = (sc0, w0)"
    by (cases "example_shim ?c []")
  have n: "cfg_rand ?c = None" and sd: "Seed ?c = 42"
    and v: "Latency ?c = 100" "Jitter ?c = 50" "Bandwidth ?c = 1024"
    by (simp_all add: config_defs)
  from s have sc0: "sc_rand sc0 = 0"
    and c: "cfg w0 = ?c\<lparr>cfg_rand := Some 0\<rparr>"
    and r: "rands w0 0 = NewSource example_gen 42"
    by (auto simp: example_shim_eq [OF n] sd)
  have l: "int64 (Latency (cfg w0)) = Latency (cfg w0)"
    by (simp add: c v int64_def)
  have p: "spc_rand (newSimulatedPacketConn (example_pconn None) 0) = sc_rand sc0"
    by (simp add: sc0 newSimulatedPacketConn_def)
  have j: "fst (rand_Int63n 50 0 w0) = 42"
    by (simp add: rand_Int63n_def Int63n_def r NewSource_def example_gen_def)
  have t: "transferTime 1024 1024 = 1000000000"
    by (rule transferTime_1024)
  have h: "0 < Bandwidth (cfg w0)" "int 1024 < 2 ^ 53" "Bandwidth (cfg w0) < 2 ^ 53"
    "real 1024 / real_of_int 1024 * 10 ^ 9 < 2 ^ 62"
    by (simp_all add: c v)
  from delay_is_latency_plus_jitter_plus_transfer [OF l, of 1024 sc0
      "newSimulatedPacketConn (example_pconn None) 0"]
  obtain j1 w1 where
    a: "calculateLatency 1024 sc0 w0 = (int64 (100 + j1 + transferTime 1024 1024), w1)"
    and b: "rand_Int63n 50 0 w0 = (j1, w1)"
    and e: "spc_simulateLatency 1024 (newSimulatedPacketConn (example_pconn None) 0) w0 =
              calculateLatency 1024 sc0 w0"
    and g: "\<bar>real_of_int (transferTime 1024 1024) - real 1024 / real_of_int 1024 * 10 ^ 9\<bar>
              \<le> 1 + 3 * (real 1024 / real_of_int 1024 * 10 ^ 9) / 2 ^ 53"
    using p h by (auto simp: c v sc0)
  from b j have "j1 = 42" by simp
  with a t have f: "fst (calculateLatency 1024 sc0 w0) = 100 + 42 + 1000000000"
    by (simp add: int64_def)
  from h have h': "0 < Bandwidth (cfg w0) \<and> int 1024 < 2 ^ 53 \<and> Bandwidth (cfg w0) < 2 ^ 53 \<and>
      real 1024 / real_of_int 1024 * 10 ^ 9 < 2 ^ 62" by blast
  from l p h' g j t f e show ?thesis
    unfolding s fst_conv snd_conv by blast
qed

section \<open>The random source of a seeded profile\<close>

lemma randSource_seeded:
  "Seed (cfg w) \<noteq> 0 \<Longrightarrow> randSource now1 w = randSource now2 w"
  by (simp add: randSource_def split: option.splits)

lemma randSource_fresh:
  assumes "cfg_rand (cfg w) = None"
  shows "fst (randSource now w) = nrands w"
    and "cfg_rand (cfg (snd (randSource now w))) = Some (nrands w)"
    and "rands (snd (randSource now w)) (nrands w) =
           (if Seed (cfg w) \<noteq> 0 then NewSource (gen w) (Seed (cfg w)) else NewSource (gen w) now)"
  using assms by (simp_all add: randSource_def Let_def)

lemma randSource_again:
  "cfg_rand (cfg w) = Some p \<Longrightarrow> randSource now w = (p, w)"
  by (simp add: randSource_def)

text \<open>
  C9. Take a profile with a non-zero seed whose random source does not exist yet. Then:
  \<^item> the first call of \<open>randSource\<close> creates the source from the seed alone (the stream the
    library gives for that seed, at its start), whatever the clock reads;
  \<^item> a later call returns the same source and changes nothing, so the source is created
    once: two stream shims and a datagram shim made from the profile one after the other
    hold the same source, and making the second and the third leaves the world as it was;
  \<^item> making a shim, by \<open>wrapConn\<close>, \<open>UDPConn\<close> or \<open>DialContext\<close>, gives the same shim and
    the same world in two runs whose clocks differ, hence any schedule of calls and goroutine
    turns on the shim returns the same results and reaches the same state in both runs, and
    any sequence of loss, duplication and reordering decisions is the same in both.
\<close>

theorem seeded_source_created_once_and_reproducible:
  assumes "Seed (cfg w) \<noteq> 0" and "cfg_rand (cfg w) = None"
  shows
    "randSource now1 w = randSource now2 w \<and>
     rands (snd (randSource now1 w)) (fst (randSource now1 w)) =
       NewSource (gen w) (Seed (cfg w)) \<and>
     randSource now2 (snd (randSource now1 w)) =
       (fst (randSource now1 w), snd (randSource now1 w)) \<and>
     (let (sc1, w1) = wrapConn now1 c1 w;
          (sc2, w2) = wrapConn now2 c2 w1;
          r = UDPConn listen now3 False laddr raddr w2
      in sc_rand sc2 = sc_rand sc1 \<and> w2 = w1 \<and> snd r = w1 \<and>
         (case fst r of Inl err \<Rightarrow> True | Inr spc \<Rightarrow> spc_rand spc = sc_rand sc1)) \<and>
     wrapConn now1 c1 w = wrapConn now2 c1 w \<and>
     UDPConn listen now1 False laddr raddr w = UDPConn listen now2 False laddr raddr w \<and>
     DialContext now1 d network a w = DialContext now2 d network a w \<and>
     sc_run sched (wrapConn now1 c1 w) = sc_run sched (wrapConn now2 c1 w) \<and>
     sc_decisions es (fst (wrapConn now1 c1 w)) (snd (wrapConn now1 c1 w)) =
       sc_decisions es (fst (wrapConn now2 c1 w)) (snd (wrapConn now2 c1 w))"
proof -
  have a: "randSource now1 w = randSource now2 w"
    using assms(1) by (rule randSource_seeded)
  have b: "rands (snd (randSource now1 w)) (fst (randSource now1 w)) =
             NewSource (gen w) (Seed (cfg w))"
    using randSource_fresh [OF assms(2), of now1] assms(1) by simp
  have p: "cfg_rand (cfg (snd (randSource now1 w))) = Some (fst (randSource now1 w))"
    using randSource_fresh [OF assms(2), of now1] by simp
  have c: "randSource t (snd (randSource now1 w)) =
             (fst (randSource now1 w), snd (randSource now1 w))" for t
    using p by (rule randSource_again)
  have w: "wrapConn now1 c1 w = wrapConn now2 c1 w"
    by (simp add: wrapConn_def a)
  have u: "UDPConn listen now1 False laddr raddr w = UDPConn listen now2 False laddr raddr w"
    by (simp add: UDPConn_def a split: sum.splits)
  have dw: "randSource now1 (w\<lparr>dials := dials w @ [(network, a)]\<rparr>) =
            randSource now2 (w\<lparr>dials := dials w @ [(network, a)]\<rparr>)"
    using assms(1) by (simp add: randSource_seeded)
  have d: "DialContext now1 d network a w = DialContext now2 d network a w"
    by (simp add: DialContext_def wrapConn_def dw Let_def split: sum.splits)
  have sh: "(let (sc1, w1) = wrapConn now1 c1 w;
          (sc2, w2) = wrapConn now2 c2 w1;
          r = UDPConn listen now3 False laddr raddr w2
      in sc_rand sc2 = sc_rand sc1 \<and> w2 = w1 \<and> snd r = w1 \<and>
         (case fst r of Inl err \<Rightarrow> True | Inr spc \<Rightarrow> spc_rand spc = sc_rand sc1))"
    by (cases "randSource now1 w")
       (use c in \<open>auto simp: wrapConn_def UDPConn_def newSimulatedPacketConn_def
          split: sum.splits prod.splits\<close>)
  show ?thesis
    using a b c [of now2] sh w u d by simp
qed


theorem seeded_source_created_once_and_reproducible_witness:
  "Seed (cfg (init_world (NewConfig [WithLossRate (1 / 2), WithSeed 42]))) \<noteq> 0 \<and>
   cfg_rand (cfg (init_world (NewConfig [WithLossRate (1 / 2), WithSeed 42]))) = None \<and>
   randSource 1 (init_world (NewConfig [WithLossRate (1 / 2), WithSeed 42])) =
     randSource 2 (init_world (NewConfig [WithLossRate (1 / 2), WithSeed 42])) \<and>
   rands (snd (randSource 1 (init_world (NewConfig [WithLossRate (1 / 2), WithSeed 42]))))
         (fst (randSource 1 (init_world (NewConfig [WithLossRate (1 / 2), WithSeed 42])))) =
     NewSource example_gen 42 \<and>
   wrapConn 1 (example_conn []) (init_world (NewConfig [WithLossRate (1 / 2), WithSeed 42])) =
     wrapConn 2 (example_conn []) (init_world (NewConfig [WithLossRate (1 / 2), WithSeed 42])) \<and>
   sc_run [CallWrite ''PING'', RunWriter]
       (wrapConn 1 (example_conn []) (init_world (NewConfig [WithLossRate (1 / 2), WithSeed 42]))) =
     sc_run [CallWrite ''PING'', RunWriter]
       (wrapConn 2 (example_conn []) (init_world (NewConfig [WithLossRate (1 / 2), WithSeed 42]))) \<and>
   sc_decisions [Loss, Duplication, Loss]
       (fst (wrapConn 1 (example_conn []) (init_world (NewConfig [WithLossRate (1 / 2), WithSeed 42]))))
       (snd (wrapConn 1 (example_conn []) (init_world (NewConfig [WithLossRate (1 / 2), WithSeed 42])))) =
     sc_decisions [Loss, Duplication, Loss]
       (fst (wrapConn 2 (example_conn []) (init_world (NewConfig [WithLossRate (1 / 2), WithSeed 42]))))
       (snd (wrapConn 2 (example_conn []) (init_world (NewConfig [WithLossRate (1 / 2), WithSeed 42]))))"
proof -
  let ?w = "init_world (NewConfig [WithLossRate (1 / 2), WithSeed 42])"
  have s: "Seed (cfg ?w) \<noteq> 0" and n: "cfg_rand (cfg ?w) = None" and g: "gen ?w = example_gen"
    and v: "Seed (cfg ?w) = 42"
    by (simp_all add: init_world_def config_defs)
  from s n show ?thesis
    using seeded_source_created_once_and_reproducible [OF s n, where ?now1.0 = 1
        and ?now2.0 = 2 and ?c1.0 = "example_conn []" and sched = "[CallWrite ''PING'', RunWriter]"
        and es = "[Loss, Duplication, Loss]"]
    unfolding g v by blast
qed

lemma seeded_decisions_example:
  "sc_decisions [Loss, Duplication, Loss]
       (fst (wrapConn 1 (example_conn []) (init_world (NewConfig [WithLossRate (1 / 2), WithSeed 42]))))
       (snd (wrapConn 1 (example_conn []) (init_world (NewConfig [WithLossRate (1 / 2), WithSeed 42])))) =
     [True, False, True]"
  by (simp add: wrapConn_def randSource_def init_world_def config_defs draw_defs
      rand_Float64_def Float64_def NewSource_def example_gen_def)


section \<open>Where the code departs from its description\<close>

subsection \<open>WriteTo\<close>

lemma deliverPacket_frame:
  "deliverPacket pkt (spc, w) = Done (spc1, w1) \<Longrightarrow>
   spc_writeQueue spc1 = spc_writeQueue spc \<and> spc_conn spc1 = spc_conn spc"
  by (auto simp: deliverPacket_def chan_send_def Let_def
      split: prod.splits if_splits chosen.splits)

lemma enqueuePacket_frame:
  assumes "enqueuePacket pkt (spc, w) = Done (spc1, w1)"
  shows "spc_writeQueue spc1 = spc_writeQueue spc \<and> spc_conn spc1 = spc_conn spc"
proof -
  obtain lost wa where l: "spc_simulateLoss spc w = (lost, wa)"
    by (cases "spc_simulateLoss spc w")
  obtain dup wb where d: "spc_simulateDuplication spc wa = (dup, wb)"
    by (cases "spc_simulateDuplication spc wa")
  show ?thesis
  proof (cases lost)
    case True
    with assms l show ?thesis by (simp add: enqueuePacket_def)
  next
    case False
    from assms l d False obtain spc2 wc where
      m: "(if dup then deliverPacket pkt (spc, wb) else Done (spc, wb)) = Done (spc2, wc)"
      by (auto simp: enqueuePacket_def split: outcome.splits)
    then have f: "spc_writeQueue spc2 = spc_writeQueue spc \<and> spc_conn spc2 = spc_conn spc"
      by (cases dup) (auto dest: deliverPacket_frame)
    obtain reo wd where r: "spc_simulateReordering spc2 wc = (reo, wd)"
      by (cases "spc_simulateReordering spc2 wc")
    from assms l d False m r
    have "(if reo then Done (spc2\<lparr>spc_delayed := spc_delayed spc2 @ [pkt]\<rparr>, wd)
           else deliverPacket pkt (spc2, wd)) = Done (spc1, w1)"
      by (simp add: enqueuePacket_def)
    then have "spc_writeQueue spc1 = spc_writeQueue spc2 \<and> spc_conn spc1 = spc_conn spc2"
      by (cases reo) (auto dest: deliverPacket_frame)
    with f show ?thesis by simp
  qed
qed

lemma WriteTo_never_transmits:
  "WriteTo p a (spc, w) = Done (r, spc1, w1) \<Longrightarrow>
   spc_writeQueue spc1 = spc_writeQueue spc \<and> spc_conn spc1 = spc_conn spc"
  by (auto simp: WriteTo_def split: if_splits outcome.splits dest: enqueuePacket_frame)

text \<open>
  C1, evaluated. On a connection made by \<open>UDPConn\<close> with no effects configured,
  \<open>WriteTo\<close> of \<open>Hello, simnet!\<close> to \<open>127.0.0.1:8081\<close> returns 14 and no error, and puts the
  packet on the connection's own \<open>readQueue\<close>. \<open>writeQueue\<close> stays empty, nothing is
  transmitted on the real socket, and the outbound loop has nothing to take. A \<open>ReadFrom\<close>
  on the same connection then returns the payload, with the destination as its address.
\<close>

theorem WriteTo_loops_back_to_sender:
  "\<exists>spc w spc1 w1 spc2.
     UDPConn example_listen 0 True (Some ''127.0.0.1:8080'') (Some ''127.0.0.1:8081'')
         (init_world (NewConfig [])) = (Inr spc, w) \<and>
     WriteTo ''Hello, simnet!'' ''127.0.0.1:8081'' (spc, w) = Done ((14, None), spc1, w1) \<and>
     ch_buf (spc_readQueue spc1) =
       [\<lparr>pkt_data = ''Hello, simnet!'', pkt_addr = ''127.0.0.1:8081''\<rparr>] \<and>
     ch_buf (spc_writeQueue spc1) = [] \<and>
     pc_tx (spc_conn spc1) = [] \<and>
     writeLoop_iter spc1 w1 = Blocked \<and>
     ReadFrom (replicate 1024 (CHR 0x00)) spc1 w1 =
       Done ((14, Some ''127.0.0.1:8081'', None,
              ''Hello, simnet!'' @ replicate 1010 (CHR 0x00)), spc2)"
  by (simp add: UDPConn_def example_listen_def example_pconn_def init_world_def config_defs
      randSource_def newSimulatedPacketConn_def make_chan_def WriteTo_def isPartitioned_def
      enqueuePacket_def deliverPacket_def spc_simulateLatency_def draw_defs Sleep_def
      can_send_def can_recv_def chan_send_def writeLoop_iter_def ReadFrom_def copy_into_def
      copy_count_def select2_def)

subsection \<open>Read in the swap branch\<close>

text \<open>
  C3, evaluated. With duplication and reordering rates 1, two reads into 8-byte buffers
  while the real connection hands over \<open>ab\<close> and then \<open>cdef\<close>: each \<open>Read\<close> returns the
  count 8, the length of the caller's buffer, although only 2 and then 6 bytes were copied
  into it; the rest of each buffer is what the caller had there before.
\<close>

theorem Read_swap_returns_buffer_length:
  "\<exists>s. sc_run [CallRead ''XXXXXXXX'', CallRead ''YYYYYYYY'']
          (example_shim (NewConfig [WithReorderRate 1, WithDuplicateRate 1])
             [(''ab'', None), (''cdef'', None)]) =
        Done ([ReadRes 8 None ''abXXXXXX'', ReadRes 8 None ''abcdefYY''], s)"
  by (simp add: example_shim_def example_conn_def init_world_def config_defs wrapConn_def
      randSource_def make_chan_def Read_def conn_Read_def draw_defs rand_Float64_def Float64_def
      NewSource_def example_gen_def sc_simulateLatency_def calculateLatency_def copy_into_def)

subsection \<open>Close\<close>

lemma spc_Close_twice:
  "spc_Close spc = Done (e, spc1) \<Longrightarrow> spc_Close spc1 = Panic CloseOfClosedChannel"
  by (auto simp: spc_Close_def close_chan_def split: if_splits prod.splits)

lemma Close_twice:
  "Close sc = Done (e, sc1) \<Longrightarrow> Close sc1 = Done (Some ErrClosed, sc1)"
  by (auto simp: Close_def close_chan_def conn_Close_def split: if_splits prod.splits)

text \<open>
  C4, evaluated. On a fresh datagram shim the first \<open>Close\<close> returns no error and the
  second panics, closing the channel \<open>closed\<close> again. On a fresh stream shim the second
  \<open>Close\<close> does not panic: the \<^verbatim>\<open>sync.Once\<close> guards the channels, and the call returns what
  closing the real connection again returns.
\<close>

theorem packet_Close_twice_panics:
  "\<exists>spc1 sc1.
     spc_Close (newSimulatedPacketConn (example_pconn None) 0) = Done (None, spc1) \<and>
     spc_Close spc1 = Panic CloseOfClosedChannel \<and>
     Close (fst (example_shim (NewConfig []) [])) = Done (None, sc1) \<and>
     Close sc1 = Done (Some ErrClosed, sc1)"
  by (simp add: spc_Close_def close_chan_def newSimulatedPacketConn_def make_chan_def
      pc_Close_def example_pconn_def Close_def conn_Close_def example_shim_def wrapConn_def
      randSource_def init_world_def config_defs example_conn_def)

end
